theory Spec2Isabelle
  imports Complex_Main "HOL-Library.Char_ord" "HOL-Library.List_Lexorder"
begin

section \<open>Python string operations used by the pipeline\<close>

text \<open>
  Strings are \<^typ>\<open>string\<close>, read as ASCII text: the legal corpora and every pattern
  of the source are ASCII. Each function below follows the behaviour of the Python
  built-in it is named after on such text.
\<close>

definition py_isspace :: "char \<Rightarrow> bool" where
  "py_isspace c = (let n = (of_char c :: nat) in (9 \<le> n \<and> n \<le> 13) \<or> (28 \<le> n \<and> n \<le> 32))"

definition lower_char :: "char \<Rightarrow> char" where
  "lower_char c = (let n = (of_char c :: nat) in if 65 \<le> n \<and> n \<le> 90 then char_of (n + 32) else c)"

definition py_lower :: "string \<Rightarrow> string" where
  "py_lower s = map lower_char s"

definition py_strip :: "string \<Rightarrow> string" where
  "py_strip s = rev (dropWhile py_isspace (rev (dropWhile py_isspace s)))"

text \<open>\<^verbatim>\<open>s.startswith(p)\<close> and the substring test \<^verbatim>\<open>sub in s\<close>.\<close>

definition starts_with :: "string \<Rightarrow> string \<Rightarrow> bool" where
  "starts_with p s = (take (length p) s = p)"

fun py_contains :: "string \<Rightarrow> string \<Rightarrow> bool" where
  "py_contains sub [] = (sub = [])"
| "py_contains sub (c # cs) = (starts_with sub (c # cs) \<or> py_contains sub cs)"

text \<open>\<^verbatim>\<open>s.split(sep)\<close> for a one-character separator: always at least one part.\<close>

fun split_on_acc :: "char \<Rightarrow> string \<Rightarrow> string \<Rightarrow> string list" where
  "split_on_acc sep w [] = [w]"
| "split_on_acc sep w (c # cs) =
     (if c = sep then w # split_on_acc sep [] cs else split_on_acc sep (w @ [c]) cs)"

definition py_split_on :: "char \<Rightarrow> string \<Rightarrow> string list" where
  "py_split_on sep s = split_on_acc sep [] s"

text \<open>\<^verbatim>\<open>s.split()\<close>: the maximal runs of non-whitespace characters.\<close>

fun split_ws_acc :: "string \<Rightarrow> string \<Rightarrow> string list" where
  "split_ws_acc w [] = (if w = [] then [] else [w])"
| "split_ws_acc w (c # cs) =
     (if py_isspace c then (if w = [] then split_ws_acc [] cs else w # split_ws_acc [] cs)
      else split_ws_acc (w @ [c]) cs)"

definition py_split_ws :: "string \<Rightarrow> string list" where
  "py_split_ws s = split_ws_acc [] s"

text \<open>\<^verbatim>\<open>sep.join(parts)\<close>.\<close>

fun py_join :: "string \<Rightarrow> string list \<Rightarrow> string" where
  "py_join sep [] = []"
| "py_join sep [x] = x"
| "py_join sep (x # y # ys) = x @ sep @ py_join sep (y # ys)"

text \<open>
  \<^verbatim>\<open>s.replace(old, new)\<close>: occurrences are replaced from left to right without
  overlap; an empty \<^verbatim>\<open>old\<close> matches before every character and at the end.
\<close>

function py_replace :: "string \<Rightarrow> string \<Rightarrow> string \<Rightarrow> string" where
  "py_replace [] new s = new @ concat (map (\<lambda>c. c # new) s)"
| "py_replace (a # as) new [] = []"
| "py_replace (a # as) new (c # cs) =
     (if starts_with (a # as) (c # cs)
      then new @ py_replace (a # as) new (drop (length as) cs)
      else c # py_replace (a # as) new cs)"
  by pat_completeness auto
termination
  by (relation "measure (\<lambda>(old, new, s). length s)") auto

text \<open>
  \<^verbatim>\<open>re.search(pat, text, re.IGNORECASE)\<close> for a pattern without metacharacters:
  some position of the text carries the pattern, letters compared without case.
\<close>

fun prefix_ci :: "string \<Rightarrow> string \<Rightarrow> bool" where
  "prefix_ci [] t = True"
| "prefix_ci (p # ps) [] = False"
| "prefix_ci (p # ps) (c # cs) = (lower_char p = lower_char c \<and> prefix_ci ps cs)"

fun re_search_ci :: "string \<Rightarrow> string \<Rightarrow> bool" where
  "re_search_ci pat [] = prefix_ci pat []"
| "re_search_ci pat (c # cs) = (prefix_ci pat (c # cs) \<or> re_search_ci pat cs)"

section \<open>Enricher (auto\_enricher.py)\<close>

subsection \<open>Summary, legal type, offense level and degree\<close>

text \<open>
  \<^verbatim>\<open>AutoEnricher._generate_summary(header)\<close>. The second test
  (\<^verbatim>\<open>len(parts) < 2\<close>) is kept although the first one already excludes it.
\<close>

definition generate_summary :: "string \<Rightarrow> string" where
  "generate_summary hdr =
    (if CHR ''|'' \<notin> set hdr then py_strip hdr
     else (case py_split_on CHR ''|'' hdr of
        section_part # title_raw # rest \<Rightarrow>
          (let title_part = py_strip title_raw; title_lower = py_lower title_part in
           if list_ex (\<lambda>word. py_contains word title_lower) [''definition'', ''definitions'', ''defined'']
             then ''Defines '' @ title_lower
           else if list_ex (\<lambda>word. py_contains word title_lower) [''penalty'', ''penalties'', ''punishment'']
             then ''Establishes penalties for '' @ title_lower
           else if list_ex (\<lambda>word. py_contains word title_lower) [''procedure'', ''process'', ''filing'']
             then ''Describes procedure for '' @ title_lower
           else ''Relates to '' @ title_lower)
      | _ \<Rightarrow> py_strip hdr))"

text \<open>
  \<^verbatim>\<open>AutoEnricher._classify_legal_type(text, header)\<close>. The criminal patterns are plain
  words, so \<^verbatim>\<open>re.search(pattern, text_lower)\<close> is a substring test.
\<close>

definition CRIMINAL_PATTERNS :: "string list" where
  "CRIMINAL_PATTERNS = [''felony'', ''misdemeanor'', ''imprisonment'', ''imprisoned'',
     ''convicted'', ''guilty'', ''offense'', ''violation'', ''penalty'']"

definition classify_legal_type :: "string \<Rightarrow> string \<Rightarrow> string" where
  "classify_legal_type text hdr =
    (let text_lower = py_lower text; header_lower = py_lower hdr;
         criminal_matches = length (filter (\<lambda>pattern. py_contains pattern text_lower) CRIMINAL_PATTERNS)
     in if criminal_matches \<ge> 2 then ''criminal_statute''
        else if py_contains ''as used in'' text_lower \<or> py_contains ''definition'' header_lower
          then ''definitional''
        else if list_ex (\<lambda>word. py_contains word text_lower)
                  [''procedure'', ''process'', ''filing'', ''hearing'', ''motion'']
          then ''procedural''
        else ''civil_statute'')"

text \<open>\<^verbatim>\<open>AutoEnricher._extract_offense_level(text)\<close>, branch for branch.\<close>

definition extract_offense_level :: "string \<Rightarrow> string option" where
  "extract_offense_level text =
    (if re_search_ci ''felony'' text then Some ''felony''
     else if re_search_ci ''misdemeanor'' text then Some ''misdemeanor''
     else if re_search_ci ''minor misdemeanor'' text then Some ''minor_misdemeanor''
     else None)"

text \<open>
  \<^verbatim>\<open>AutoEnricher._extract_offense_degree(text)\<close>. The search
  \<^verbatim>\<open>kind of the (first|second|...) degree\<close> returns the leftmost match; at one position
  at most one ordinal can match, and the group is mapped through \<^verbatim>\<open>degree_map\<close>.
\<close>

fun search_degree :: "string \<Rightarrow> (string \<times> string) list \<Rightarrow> string \<Rightarrow> string option" where
  "search_degree kind degree_map [] = None"
| "search_degree kind degree_map (c # cs) =
     (case find (\<lambda>(word, code). prefix_ci (kind @ '' of the '' @ word @ '' degree'') (c # cs)) degree_map of
        Some (word, code) \<Rightarrow> Some code
      | None \<Rightarrow> search_degree kind degree_map cs)"

definition extract_offense_degree :: "string \<Rightarrow> string option" where
  "extract_offense_degree text =
    (case search_degree ''felony''
            [(''first'', ''F1''), (''second'', ''F2''), (''third'', ''F3''), (''fourth'', ''F4''), (''fifth'', ''F5'')] text of
       Some code \<Rightarrow> Some code
     | None \<Rightarrow> search_degree ''misdemeanor''
            [(''first'', ''M1''), (''second'', ''M2''), (''third'', ''M3''), (''fourth'', ''M4'')] text)"

subsection \<open>Complexity score\<close>

text \<open>
  \<^verbatim>\<open>AutoEnricher._calculate_complexity(word_count, paragraph_count, citation_count)\<close>.
  Python integers are unbounded, hence \<^typ>\<open>int\<close>. The three \<^verbatim>\<open>if/elif\<close> chains
  update \<^verbatim>\<open>score\<close> in sequence; the result is \<^verbatim>\<open>max(1, min(10, score))\<close>.
\<close>

definition calculate_complexity :: "int \<Rightarrow> int \<Rightarrow> int \<Rightarrow> int" where
  "calculate_complexity word_count paragraph_count citation_count =
    (let score0 = 5;
         score1 = (if word_count > 1000 then score0 + 2
                   else if word_count > 500 then score0 + 1
                   else if word_count < 100 then score0 - 1
                   else score0);
         score2 = (if paragraph_count > 15 then score1 + 2
                   else if paragraph_count > 10 then score1 + 1
                   else score1);
         score3 = (if citation_count > 10 then score2 + 2
                   else if citation_count > 5 then score2 + 1
                   else if citation_count = 0 then score2 - 1
                   else score2)
     in max 1 (min 10 score3))"

text \<open>
  The formula as the specification words it: a start value of 5, one adjustment per
  metric, and a clamp into the scale from 1 to 10.
\<close>

definition spec_word_adjust :: "int \<Rightarrow> int" where
  "spec_word_adjust w = (if w > 1000 then 2 else if w > 500 then 1 else if w < 100 then - 1 else 0)"

definition spec_paragraph_adjust :: "int \<Rightarrow> int" where
  "spec_paragraph_adjust p = (if p > 15 then 2 else if p > 10 then 1 else 0)"

definition spec_citation_adjust :: "int \<Rightarrow> int" where
  "spec_citation_adjust c = (if c > 10 then 2 else if c > 5 then 1 else if c = 0 then - 1 else 0)"

definition spec_clamp :: "int \<Rightarrow> int" where
  "spec_clamp x = (if x < 1 then 1 else if x > 10 then 10 else x)"

definition spec_complexity :: "int \<Rightarrow> int \<Rightarrow> int \<Rightarrow> int" where
  "spec_complexity w p c =
     spec_clamp (5 + spec_word_adjust w + spec_paragraph_adjust p + spec_citation_adjust c)"

section \<open>Citation mapper (citation\_mapper.py)\<close>

datatype error = ValueError | OverflowError | IndexError | BadValsizeError

subsection \<open>Decimal numerals\<close>

definition is_digit :: "char \<Rightarrow> bool" where
  "is_digit c = (let n = (of_char c :: nat) in 48 \<le> n \<and> n \<le> 57)"

definition digit_val :: "char \<Rightarrow> nat" where
  "digit_val c = of_char c - 48"

definition digit_char :: "nat \<Rightarrow> char" where
  "digit_char d = char_of (48 + d)"

text \<open>The value of a string of decimal digits, most significant digit first.\<close>

definition int_of_digits :: "string \<Rightarrow> int" where
  "int_of_digits ds = foldl (\<lambda>acc c. 10 * acc + int (digit_val c)) 0 ds"

text \<open>\<^verbatim>\<open>str(n)\<close> for an integer, as the f-strings of the source print it.\<close>

function py_str_digits :: "int \<Rightarrow> string" where
  "py_str_digits n =
    (if n < 10 then [digit_char (nat n)]
     else py_str_digits (n div 10) @ [digit_char (nat (n mod 10))])"
  by pat_completeness auto
termination
  by (relation "measure nat") auto

declare py_str_digits.simps [simp del]

definition py_str_int :: "int \<Rightarrow> string" where
  "py_str_int i = (if i < 0 then CHR ''-'' # py_str_digits (- i) else py_str_digits i)"

subsection \<open>Floating-point numbers\<close>

text \<open>
  Python's \<^verbatim>\<open>float\<close> is the IEEE 754 binary64 format. A value is a rational that the
  format represents, an infinity or a NaN (the sign of zero plays no role below). Every
  operation computes the exact result and rounds it to the nearest representable value,
  ties to the even significand: 53 significant bits, exponents from -1022 (where the
  subnormal range begins) to 1023, overflow to infinity.
\<close>

datatype py_float = Finite rat | PosInf | NegInf | NaN

definition pow2 :: "int \<Rightarrow> rat" where
  "pow2 e = (if e \<ge> 0 then 2 ^ nat e else 1 / 2 ^ nat (- e))"

function bit_length :: "int \<Rightarrow> nat" where
  "bit_length n = (if n \<le> 0 then 0 else Suc (bit_length (n div 2)))"
  by pat_completeness auto
termination
  by (relation "measure nat") auto

declare bit_length.simps [simp del]

text \<open>
  For \<open>q > 0\<close>, the integer \<open>e\<close> with \<open>2\<^sup>e \<le> q < 2\<^sup>e\<^sup>+\<^sup>1\<close>: the bit length of the integer
  part when \<open>q \<ge> 1\<close>, and otherwise the least \<open>k\<close> with \<open>1 / q \<le> 2\<^sup>k\<close>, negated.
\<close>

definition floor_log2 :: "rat \<Rightarrow> int" where
  "floor_log2 q =
    (if q \<ge> 1 then int (bit_length \<lfloor>q\<rfloor>) - 1
     else - int (bit_length (\<lceil>1 / q\<rceil> - 1)))"

definition round_half_even :: "rat \<Rightarrow> int" where
  "round_half_even x =
    (let f = \<lfloor>x\<rfloor>; d = x - of_int f
     in if d < 1 / 2 then f else if d > 1 / 2 then f + 1 else if even f then f else f + 1)"

definition round_to_double :: "rat \<Rightarrow> py_float" where
  "round_to_double q =
    (if q = 0 then Finite 0
     else let a = \<bar>q\<bar>;
              e = max (floor_log2 a) (- 1022);
              ulp = pow2 (e - 52);
              r = of_int (round_half_even (a / ulp)) * ulp
          in if r \<ge> pow2 1024 then (if q > 0 then PosInf else NegInf)
             else Finite (if q > 0 then r else - r))"

text \<open>Addition, subtraction and comparison, with the IEEE rules for infinities and NaN.\<close>

fun fadd :: "py_float \<Rightarrow> py_float \<Rightarrow> py_float" where
  "fadd (Finite a) (Finite b) = round_to_double (a + b)"
| "fadd NaN _ = NaN"
| "fadd _ NaN = NaN"
| "fadd PosInf NegInf = NaN"
| "fadd NegInf PosInf = NaN"
| "fadd PosInf _ = PosInf"
| "fadd NegInf _ = NegInf"
| "fadd _ PosInf = PosInf"
| "fadd _ NegInf = NegInf"

fun fneg :: "py_float \<Rightarrow> py_float" where
  "fneg (Finite a) = Finite (- a)"
| "fneg PosInf = NegInf"
| "fneg NegInf = PosInf"
| "fneg NaN = NaN"

definition fsub :: "py_float \<Rightarrow> py_float \<Rightarrow> py_float" where
  "fsub x y = fadd x (fneg y)"

fun fle :: "py_float \<Rightarrow> py_float \<Rightarrow> bool" where
  "fle NaN _ = False"
| "fle _ NaN = False"
| "fle (Finite a) (Finite b) = (a \<le> b)"
| "fle NegInf _ = True"
| "fle _ PosInf = True"
| "fle _ _ = False"

text \<open>
  \<^verbatim>\<open>float(s)\<close> on a token of the shape \<^verbatim>\<open>\d+\.\d+\<close>, the only strings the citation
  patterns capture: the decimal value, correctly rounded. Any other string is answered
  with \<^verbatim>\<open>ValueError\<close>.
\<close>

definition is_section_token :: "string \<Rightarrow> bool" where
  "is_section_token s =
    (let a = takeWhile is_digit s; r = dropWhile is_digit s
     in a \<noteq> [] \<and> (case r of [] \<Rightarrow> False
                     | c # b \<Rightarrow> c = CHR ''.'' \<and> b \<noteq> [] \<and> list_all is_digit b))"

definition decimal_value :: "string \<Rightarrow> rat" where
  "decimal_value s =
    (let a = takeWhile is_digit s; b = drop 1 (dropWhile is_digit s)
     in of_int (int_of_digits a) + of_int (int_of_digits b) / 10 ^ length b)"

definition float_of_string :: "string \<Rightarrow> error + py_float" where
  "float_of_string s = (if is_section_token s then Inr (round_to_double (decimal_value s)) else Inl ValueError)"

text \<open>\<^verbatim>\<open>int(x)\<close> truncates a finite float and raises on infinities and NaN.\<close>

fun py_int :: "py_float \<Rightarrow> error + int" where
  "py_int (Finite q) = Inr (if q \<ge> 0 then \<lfloor>q\<rfloor> else \<lceil>q\<rceil>)"
| "py_int NaN = Inl ValueError"
| "py_int _ = Inl OverflowError"

subsection \<open>Reference extraction\<close>

text \<open>
  \<^verbatim>\<open>extract_cross_references(text)\<close> runs \<^verbatim>\<open>re.findall\<close> for each pattern and
  processes every match. The matches are the input of the model, in the order the two
  nested loops visit them: the first pattern has two groups and yields pairs (the second
  component empty when the range part is absent), the other patterns yield one string.
\<close>

datatype match = Groups string string | Single string

text \<open>
  The expansion loop
  \<^verbatim>\<open>while current <= end_num: if current == int(current): add; current += 0.01\<close>.
  It need not end (for large values adding 0.01 changes nothing), so the model counts
  iterations: \<open>None\<close> means that the given number of iterations did not finish the loop.
  An exception leaves the loop: \<^verbatim>\<open>ValueError\<close> is caught behind it, anything else
  propagates.
\<close>

fun expand_range :: "nat \<Rightarrow> py_float \<Rightarrow> py_float \<Rightarrow> string set \<Rightarrow> (error + string set) option" where
  "expand_range fuel current end_num references =
    (if \<not> fle current end_num then Some (Inr references)
     else case fuel of
       0 \<Rightarrow> None
     | Suc n \<Rightarrow>
        (case py_int current of
           Inl ValueError \<Rightarrow> Some (Inr references)
         | Inl e \<Rightarrow> Some (Inl e)
         | Inr i \<Rightarrow>
            expand_range n (fadd current (round_to_double (1 / 100))) end_num
              (if current = Finite (of_int i) then insert (py_str_int i @ ''.01'') references
               else references)))"

declare expand_range.simps [simp del]

definition process_match :: "nat \<Rightarrow> string set \<Rightarrow> match \<Rightarrow> (error + string set) option" where
  "process_match fuel references m =
    (case m of
       Single s \<Rightarrow> Some (Inr (insert s references))
     | Groups start_section end_section \<Rightarrow>
        if end_section \<noteq> [] then
          (let references = insert end_section (insert start_section references) in
           case float_of_string start_section of
             Inl e \<Rightarrow> Some (Inr references)
           | Inr start_num \<Rightarrow>
              (case float_of_string end_section of
                 Inl e \<Rightarrow> Some (Inr references)
               | Inr end_num \<Rightarrow>
                  if fle (fsub end_num start_num) (Finite 20)
                  then expand_range fuel start_num end_num references
                  else Some (Inr references)))
        else Some (Inr (insert start_section references)))"

fun process_matches :: "nat \<Rightarrow> string set \<Rightarrow> match list \<Rightarrow> (error + string set) option" where
  "process_matches fuel references [] = Some (Inr references)"
| "process_matches fuel references (m # ms) =
    (case process_match fuel references m of
       None \<Rightarrow> None
     | Some (Inl e) \<Rightarrow> Some (Inl e)
     | Some (Inr references') \<Rightarrow> process_matches fuel references' ms)"

text \<open>The final filter \<^verbatim>\<open>re.match(r'^\d{3,4}\.\d+$', ref.strip())\<close>.\<close>

definition valid_section_format :: "string \<Rightarrow> bool" where
  "valid_section_format s =
    (let a = takeWhile is_digit s; r = dropWhile is_digit s
     in (length a = 3 \<or> length a = 4) \<and>
        (case r of [] \<Rightarrow> False
         | c # b \<Rightarrow> c = CHR ''.'' \<and> b \<noteq> [] \<and> list_all is_digit b))"

definition extract_cross_references :: "nat \<Rightarrow> match list \<Rightarrow> (error + string set) option" where
  "extract_cross_references fuel matches =
    (case process_matches fuel {} matches of
       None \<Rightarrow> None
     | Some (Inl e) \<Rightarrow> Some (Inl e)
     | Some (Inr references) \<Rightarrow>
         Some (Inr (py_strip ` {ref \<in> references. valid_section_format (py_strip ref)})))"

subsection \<open>Reference chains\<close>

text \<open>
  The values of the citation map are Python sets, and \<^verbatim>\<open>list(refs)\<close> lists a set in the
  order of its hash table, which the program does not control. That order is the parameter
  \<open>set_order\<close> of the functions below: \<open>set_order refs\<close> is the list that iterating the
  set \<open>refs\<close> yields.

  \<^verbatim>\<open>_build_reference_chain(start_section, citation_map, max_size)\<close>. The loop
  \<^verbatim>\<open>while queue and len(chain) < max_size\<close> pops the head of the queue, skips a visited
  section, and otherwise appends it to the chain and queues those of the first three
  listed references that are unvisited keys of the map. A section that is no key has the
  empty set of references.
\<close>

function build_chain_loop ::
  "(string set \<Rightarrow> string list) \<Rightarrow> (string \<rightharpoonup> string set) \<Rightarrow> int \<Rightarrow>
   string list \<Rightarrow> string set \<Rightarrow> string list \<Rightarrow> string list" where
  "build_chain_loop set_order citation_map max_size chain visited [] = chain"
| "build_chain_loop set_order citation_map max_size chain visited (current # queue) =
    (if \<not> int (length chain) < max_size then chain
     else if current \<in> visited
       then build_chain_loop set_order citation_map max_size chain visited queue
     else build_chain_loop set_order citation_map max_size (chain @ [current]) (insert current visited)
            (queue @ filter (\<lambda>ref. ref \<notin> insert current visited \<and> citation_map ref \<noteq> None)
                       (take 3 (set_order (case citation_map current of
                                             None \<Rightarrow> {} | Some refs \<Rightarrow> refs)))))"
  by pat_completeness auto
termination
  by (relation "measures [\<lambda>(so, cm, max_size, chain, visited, queue). nat (max_size - int (length chain)),
                          \<lambda>(so, cm, max_size, chain, visited, queue). length queue]") auto

definition build_reference_chain ::
  "(string set \<Rightarrow> string list) \<Rightarrow> string \<Rightarrow> (string \<rightharpoonup> string set) \<Rightarrow> int \<Rightarrow> string list" where
  "build_reference_chain set_order start_section citation_map max_size =
     build_chain_loop set_order citation_map max_size [] {} [start_section]"

text \<open>
  The chain part of \<^verbatim>\<open>analyze_citation_patterns\<close>: the dictionary is walked in
  insertion order (an association list with distinct keys); a section that no earlier
  chain visited and whose set of references is not empty starts a chain of at most eight
  sections, and chains of four or more sections are the complex ones.
\<close>

fun collect_chains ::
  "(string set \<Rightarrow> string list) \<Rightarrow> (string \<times> string set) list \<Rightarrow> (string \<times> string set) list \<Rightarrow>
   string set \<Rightarrow> string list list \<Rightarrow> string list list \<Rightarrow> string list list \<times> string list list" where
  "collect_chains set_order citation_map [] visited_global complex_chains simple_pairs =
     (complex_chains, simple_pairs)"
| "collect_chains set_order citation_map ((section, refs) # items) visited_global complex_chains simple_pairs =
    (if section \<notin> visited_global \<and> refs \<noteq> {} then
       (let chain = build_reference_chain set_order section (map_of citation_map) 8;
            visited_global = visited_global \<union> set chain
        in if length chain \<ge> 4
             then collect_chains set_order citation_map items visited_global
                    (complex_chains @ [chain]) simple_pairs
           else if length chain \<ge> 2
             then collect_chains set_order citation_map items visited_global
                    complex_chains (simple_pairs @ [chain])
           else collect_chains set_order citation_map items visited_global complex_chains simple_pairs)
     else collect_chains set_order citation_map items visited_global complex_chains simple_pairs)"

definition analyze_complex_chains ::
  "(string set \<Rightarrow> string list) \<Rightarrow> (string \<times> string set) list \<Rightarrow> string list list" where
  "analyze_complex_chains set_order citation_map =
     fst (collect_chains set_order citation_map citation_map {} [] [])"

text \<open>
  \<^verbatim>\<open>save_results\<close> writes the citation map as JSON with every set turned into a list,
  \<^verbatim>\<open>{k: list(v) for k, v in citation_map.items()}\<close>; this file is the citation map the
  store builder loads.
\<close>

definition serializable_map ::
  "(string set \<Rightarrow> string list) \<Rightarrow> (string \<times> string set) list \<Rightarrow> (string \<times> string list) list" where
  "serializable_map set_order citation_map = map (\<lambda>(k, v). (k, set_order v)) citation_map"

text \<open>
  The chain records of \<^verbatim>\<open>save_results\<close>, one line of \<^verbatim>\<open>complex_chains.jsonl\<close> each.
  \<^verbatim>\<open>chain[0]\<close> raises \<^verbatim>\<open>IndexError\<close> on an empty chain; the time stamp is a parameter.
\<close>

record chain_data =
  chain_id :: string
  primary_section :: string
  chain_sections :: "string list"
  estimated_complexity :: int
  created_at :: string

fun save_chains :: "string \<Rightarrow> nat \<Rightarrow> string list list \<Rightarrow> error + chain_data list" where
  "save_chains now i [] = Inr []"
| "save_chains now i (chain # more_chains) =
    (case chain of
       [] \<Rightarrow> Inl IndexError
     | first # _ \<Rightarrow>
        (case save_chains now (Suc i) more_chains of
           Inl e \<Rightarrow> Inl e
         | Inr written \<Rightarrow>
             Inr (\<lparr>chain_id = ''complex_'' @ py_str_int (int i),
                   primary_section = first,
                   chain_sections = chain,
                   estimated_complexity = int (length chain),
                   created_at = now\<rparr> # written)))"

definition save_results :: "string \<Rightarrow> string list list \<Rightarrow> error + chain_data list" where
  "save_results now complex_chains = save_chains now 0 complex_chains"

text \<open>
  The forward map of the specification's chain scenario, with sets of references as the
  mapper holds them.
\<close>

definition scenario_forward_map :: "(string \<times> string set) list" where
  "scenario_forward_map =
    [(''A'', {''B'', ''C''}), (''B'', {''D'', ''E''}), (''C'', {''F''}), (''D'', {''G'', ''H''}),
     (''E'', {}), (''F'', {''I''}), (''G'', {}), (''H'', {}), (''I'', {})]"

text \<open>
  A listing order for examples: the members of a set in the order in which a given list
  names them.
\<close>

definition order_by :: "string list \<Rightarrow> string set \<Rightarrow> string list" where
  "order_by preference refs = filter (\<lambda>x. x \<in> refs) preference"

section \<open>Store builder (build\_comprehensive\_lmdb.py)\<close>

subsection \<open>Dictionaries and tables\<close>

text \<open>
  A Python dictionary that the code iterates over is an association list in insertion
  order with distinct keys: assigning to a present key keeps its place, a new key goes
  to the end. Lookup is \<^const>\<open>map_of\<close>.
\<close>

fun dict_put :: "('k \<times> 'v) list \<Rightarrow> 'k \<Rightarrow> 'v \<Rightarrow> ('k \<times> 'v) list" where
  "dict_put [] k v = [(k, v)]"
| "dict_put ((k', v') # d) k v = (if k' = k then (k, v) # d else (k', v') # dict_put d k v)"

text \<open>
  A table of the store maps a key to its JSON value, here the record that was
  serialised. \<^verbatim>\<open>txn.put\<close> overwrites; the store rejects an empty key and a key of more
  than 511 bytes with \<^verbatim>\<open>BadValsizeError\<close>, which aborts the write transaction of the
  running build step.
\<close>

definition txn_put :: "(string \<rightharpoonup> 'v) \<Rightarrow> string \<Rightarrow> 'v \<Rightarrow> error + (string \<rightharpoonup> 'v)" where
  "txn_put db k v = (if k = [] \<or> length k > 511 then Inl BadValsizeError else Inr (db(k \<mapsto> v)))"

subsection \<open>Records\<close>

text \<open>An input line: the values that \<^verbatim>\<open>doc.get(key, default)\<close> returns.\<close>

record doc =
  doc_url :: string
  doc_url_hash :: string
  doc_header :: string
  doc_paragraphs :: "string list"

record enrichment_data =
  summary :: string
  legal_type :: string
  practice_areas :: "string list"
  complexity :: int
  key_terms :: "string list"
  offense_level :: "string option"
  offense_degree :: "string option"

record section_data =
  section_number :: string
  url :: string
  url_hash :: string
  header :: string
  section_title :: string
  paragraphs :: "string list"
  full_text :: string
  word_count :: int
  paragraph_count :: int
  has_citations :: bool
  citation_count :: int
  in_complex_chain :: bool
  is_clickable :: bool
  scraped_date :: string
  enrichment :: "enrichment_data option"

record citation_context =
  cc_target :: string
  cc_relationship :: string
  cc_context :: string
  cc_position :: int

record reference_detail =
  rd_section :: string
  rd_title :: string
  rd_url :: string
  rd_url_hash :: string
  rd_relationship :: string
  rd_context :: string
  rd_position :: int

record citation_data =
  cd_section :: string
  direct_references :: "string list"
  reference_count :: int
  references_details :: "reference_detail list"

record citing_detail =
  cg_section :: string
  cg_title :: string
  cg_url :: string

record reverse_data =
  rv_section :: string
  cited_by :: "string list"
  cited_by_count :: int
  citing_details :: "citing_detail list"

record chain_item =
  ci_section :: string
  ci_title :: string
  ci_url :: string
  ci_url_hash :: string
  ci_full_text :: string
  ci_word_count :: int

record citation_chain =
  ch_chain_id :: string
  ch_primary_section :: string
  ch_chain_sections :: "string list"
  ch_chain_depth :: int
  ch_references_count :: int
  ch_created_at :: string
  complete_chain :: "chain_item list"

subsection \<open>Enrichment of a section\<close>

text \<open>
  \<^verbatim>\<open>AutoEnricher.enrich_section(section_data, citation_count)\<close>. The keyword tables
  behind \<^verbatim>\<open>_identify_practice_areas\<close> and the token rules of \<^verbatim>\<open>_extract_key_terms\<close>
  are parameters of the model; everything else is computed as in the source.
\<close>

record enricher =
  identify_practice_areas :: "string \<Rightarrow> string \<Rightarrow> string list"
  extract_key_terms :: "string \<Rightarrow> string \<Rightarrow> string list"

definition enrich_section :: "enricher \<Rightarrow> section_data \<Rightarrow> int \<Rightarrow> section_data" where
  "enrich_section en sd cit_count =
    (let pars = paragraphs sd;
         hdr = header sd;
         section_num = section_number sd;
         text_lower = py_lower (py_join [CHR 0x0A] pars);
         ltype = classify_legal_type text_lower hdr;
         criminal = (ltype = ''criminal_statute'')
     in sd\<lparr>enrichment := Some
          \<lparr>summary = generate_summary hdr,
           legal_type = ltype,
           practice_areas = identify_practice_areas en text_lower section_num,
           complexity = calculate_complexity (word_count sd) (paragraph_count sd) cit_count,
           key_terms = extract_key_terms en hdr text_lower,
           offense_level = (if criminal then extract_offense_level text_lower else None),
           offense_degree = (if criminal then extract_offense_degree text_lower else None)\<rparr>\<rparr>)"

subsection \<open>Loading the citation data\<close>

text \<open>
  \<^verbatim>\<open>load_citation_data\<close> reads the citation map (a dictionary from a section to the
  list of its references) and builds the reverse map at once: for every reference of
  every section, the section is added to the set stored under the reference.
\<close>

definition add_citing :: "(string \<times> string set) list \<Rightarrow> string \<Rightarrow> string \<Rightarrow> (string \<times> string set) list" where
  "add_citing reverse_map sec ref =
     dict_put reverse_map ref (insert sec (case map_of reverse_map ref of None \<Rightarrow> {} | Some citing \<Rightarrow> citing))"

definition build_reverse_map :: "(string \<times> string list) list \<Rightarrow> (string \<times> string set) list" where
  "build_reverse_map cmap =
     foldl (\<lambda>reverse_map (sec, refs). foldl (\<lambda>reverse_map ref. add_citing reverse_map sec ref) reverse_map refs)
       [] cmap"

text \<open>The chains file is read line by line into a dictionary keyed by \<^verbatim>\<open>chain_id\<close>.\<close>

definition load_chains :: "chain_data list \<Rightarrow> (string \<times> chain_data) list" where
  "load_chains chain_lines = foldl (\<lambda>chains_map c. dict_put chains_map (chain_id c) c) [] chain_lines"

subsection \<open>The primary table\<close>

text \<open>
  The state of \<^verbatim>\<open>build_sections_database\<close>: the in-memory dictionary
  \<^verbatim>\<open>sections_data\<close>, the table written inside the write transaction, and the counter.
\<close>

record sections_state =
  sections_data :: "string \<rightharpoonup> section_data"
  sections_db :: "string \<rightharpoonup> section_data"
  sections_count :: nat

text \<open>
  One iteration of the loop over the input lines, in its steps: the header is split at
  the pipe into the section number (with the words \<^verbatim>\<open>Section\<close> and \<^verbatim>\<open>Rule\<close> removed)
  and the title; the section record is filled in; the enricher, when enabled, adds its
  metadata; the record is kept in memory and written to the table. A header without a
  pipe is skipped (\<^verbatim>\<open>continue\<close>). The time stamp \<^verbatim>\<open>datetime.now().isoformat()\<close> is
  the parameter \<open>now\<close>.
\<close>

definition parse_header :: "string \<Rightarrow> error + string \<times> string" where
  "parse_header hdr =
    (case py_split_on CHR ''|'' hdr of
       [] \<Rightarrow> Inl IndexError
     | part0 # parts \<Rightarrow>
         Inr (py_strip (py_replace ''Rule '' [] (py_replace ''Section '' [] part0)),
              (case parts of [] \<Rightarrow> [] | part1 # _ \<Rightarrow> py_strip part1)))"

definition section_record ::
  "(string \<times> string list) list \<Rightarrow> (string \<times> string set) list \<Rightarrow> (string \<times> chain_data) list \<Rightarrow>
   string \<Rightarrow> doc \<Rightarrow> string \<Rightarrow> string \<Rightarrow> section_data" where
  "section_record cmap reverse_map chains_map now d section_num title =
    (let pars = doc_paragraphs d;
         has_forward_citations = (map_of cmap section_num \<noteq> None);
         has_reverse_citations = (map_of reverse_map section_num \<noteq> None);
         clickable = (has_forward_citations \<or> has_reverse_citations)
     in \<lparr>section_number = section_num,
         url = doc_url d,
         url_hash = doc_url_hash d,
         header = doc_header d,
         section_title = title,
         paragraphs = pars,
         full_text = py_join [CHR 0x0A] pars,
         word_count = (\<Sum>p\<leftarrow>pars. int (length (py_split_ws p))),
         paragraph_count = int (length pars),
         has_citations = has_forward_citations,
         citation_count = int (length (case map_of cmap section_num of None \<Rightarrow> [] | Some refs \<Rightarrow> refs)),
         in_complex_chain = (map_of chains_map section_num \<noteq> None),
         is_clickable = clickable,
         scraped_date = now,
         enrichment = None\<rparr>)"

definition process_doc ::
  "enricher option \<Rightarrow> (string \<times> string list) list \<Rightarrow> (string \<times> string set) list \<Rightarrow>
   (string \<times> chain_data) list \<Rightarrow> string \<Rightarrow> sections_state \<Rightarrow> doc \<Rightarrow> error + sections_state" where
  "process_doc en cmap reverse_map chains_map now st d =
    (if CHR ''|'' \<notin> set (doc_header d) then Inr st
     else case parse_header (doc_header d) of
       Inl e \<Rightarrow> Inl e
     | Inr (section_num, title) \<Rightarrow>
        (let sd = section_record cmap reverse_map chains_map now d section_num title;
             cit_count = int (length (case map_of cmap section_num of None \<Rightarrow> [] | Some refs \<Rightarrow> refs));
             sd = (case en of None \<Rightarrow> sd | Some e \<Rightarrow> enrich_section e sd cit_count)
         in case txn_put (sections_db st) section_num sd of
              Inl e \<Rightarrow> Inl e
            | Inr db \<Rightarrow>
                Inr \<lparr>sections_data = (sections_data st)(section_num \<mapsto> sd),
                     sections_db = db,
                     sections_count = Suc (sections_count st)\<rparr>))"

fun process_docs ::
  "enricher option \<Rightarrow> (string \<times> string list) list \<Rightarrow> (string \<times> string set) list \<Rightarrow>
   (string \<times> chain_data) list \<Rightarrow> string \<Rightarrow> sections_state \<Rightarrow> doc list \<Rightarrow> error + sections_state" where
  "process_docs en cmap reverse_map chains_map now st [] = Inr st"
| "process_docs en cmap reverse_map chains_map now st (d # ds) =
    (case process_doc en cmap reverse_map chains_map now st d of
       Inl e \<Rightarrow> Inl e
     | Inr st' \<Rightarrow> process_docs en cmap reverse_map chains_map now st' ds)"

definition build_sections_database ::
  "enricher option \<Rightarrow> (string \<times> string list) list \<Rightarrow> (string \<times> chain_data) list \<Rightarrow> string \<Rightarrow>
   doc list \<Rightarrow> error + sections_state" where
  "build_sections_database en cmap chains_map now docs =
     process_docs en cmap (build_reverse_map cmap) chains_map now
       \<lparr>sections_data = Map.empty, sections_db = Map.empty, sections_count = 0\<rparr> docs"

subsection \<open>The citations table\<close>

text \<open>
  \<^verbatim>\<open>build_citations_database\<close>. For one entry of the citation map, the enhanced
  contexts of the section are indexed by target (a later context for the same target
  replaces an earlier one), and one details row is made per reference; a reference
  without a section in \<^verbatim>\<open>sections_data\<close> keeps empty title, url and hash.
\<close>

definition enhanced_map_of :: "citation_context list \<Rightarrow> (string \<rightharpoonup> citation_context)" where
  "enhanced_map_of enhanced_citations = foldl (\<lambda>m c. m(cc_target c \<mapsto> c)) Map.empty enhanced_citations"

definition reference_detail_of ::
  "(string \<rightharpoonup> section_data) \<Rightarrow> (string \<rightharpoonup> citation_context) \<Rightarrow> string \<Rightarrow> reference_detail" where
  "reference_detail_of secs enhanced_map ref =
    (let (relationship, ctx, pos) =
           (case enhanced_map ref of
              Some enhanced_info \<Rightarrow>
                (cc_relationship enhanced_info, take 100 (cc_context enhanced_info), cc_position enhanced_info)
            | None \<Rightarrow> (''cross_reference'', [], 0));
         (title, u, h) =
           (case secs ref of
              Some ref_data \<Rightarrow> (section_title ref_data, url ref_data, url_hash ref_data)
            | None \<Rightarrow> ([], [], []))
     in \<lparr>rd_section = ref, rd_title = title, rd_url = u, rd_url_hash = h,
         rd_relationship = relationship, rd_context = ctx, rd_position = pos\<rparr>)"

definition citation_data_of ::
  "(string \<rightharpoonup> section_data) \<Rightarrow> (string \<rightharpoonup> citation_context list) \<Rightarrow> string \<Rightarrow> string list \<Rightarrow> citation_data" where
  "citation_data_of secs contexts_map section_num refs =
    (let enhanced_citations = (case contexts_map section_num of None \<Rightarrow> [] | Some cs \<Rightarrow> cs);
         enhanced_map = enhanced_map_of enhanced_citations
     in \<lparr>cd_section = section_num,
         direct_references = refs,
         reference_count = int (length refs),
         references_details = map (reference_detail_of secs enhanced_map) refs\<rparr>)"

fun put_citations ::
  "(string \<rightharpoonup> section_data) \<Rightarrow> (string \<rightharpoonup> citation_context list) \<Rightarrow>
   (string \<rightharpoonup> citation_data) \<Rightarrow> (string \<times> string list) list \<Rightarrow> error + (string \<rightharpoonup> citation_data)" where
  "put_citations secs contexts_map db [] = Inr db"
| "put_citations secs contexts_map db ((section_num, refs) # items) =
    (case txn_put db section_num (citation_data_of secs contexts_map section_num refs) of
       Inl e \<Rightarrow> Inl e
     | Inr db' \<Rightarrow> put_citations secs contexts_map db' items)"

definition build_citations_database ::
  "(string \<rightharpoonup> section_data) \<Rightarrow> (string \<rightharpoonup> citation_context list) \<Rightarrow>
   (string \<times> string list) list \<Rightarrow> error + (string \<rightharpoonup> citation_data)" where
  "build_citations_database secs contexts_map cmap = put_citations secs contexts_map Map.empty cmap"

subsection \<open>The reverse citations table\<close>

text \<open>
  \<^verbatim>\<open>build_reverse_citations_database\<close> builds the reverse map again from the citation
  map and writes one entry per cited section: the citing sections sorted, their number,
  and a details row for each citing section that \<^verbatim>\<open>sections_data\<close> holds.
\<close>

definition reverse_data_of :: "(string \<rightharpoonup> section_data) \<Rightarrow> string \<Rightarrow> string set \<Rightarrow> reverse_data" where
  "reverse_data_of secs section_num citing_sections =
    \<lparr>rv_section = section_num,
     cited_by = sorted_list_of_set citing_sections,
     cited_by_count = int (card citing_sections),
     citing_details =
       concat (map (\<lambda>citing. case secs citing of
                       Some citing_data \<Rightarrow>
                         [\<lparr>cg_section = citing, cg_title = section_title citing_data, cg_url = url citing_data\<rparr>]
                     | None \<Rightarrow> [])
                 (sorted_list_of_set citing_sections))\<rparr>"

fun put_reverse ::
  "(string \<rightharpoonup> section_data) \<Rightarrow> (string \<rightharpoonup> reverse_data) \<Rightarrow> (string \<times> string set) list \<Rightarrow>
   error + (string \<rightharpoonup> reverse_data)" where
  "put_reverse secs db [] = Inr db"
| "put_reverse secs db ((section_num, citing_sections) # items) =
    (case txn_put db section_num (reverse_data_of secs section_num citing_sections) of
       Inl e \<Rightarrow> Inl e
     | Inr db' \<Rightarrow> put_reverse secs db' items)"

definition build_reverse_citations_database ::
  "(string \<rightharpoonup> section_data) \<Rightarrow> (string \<times> string list) list \<Rightarrow> error + (string \<rightharpoonup> reverse_data)" where
  "build_reverse_citations_database secs cmap = put_reverse secs Map.empty (build_reverse_map cmap)"

subsection \<open>The chains table\<close>

text \<open>
  \<^verbatim>\<open>build_chains_database\<close> writes every loaded chain under its \<^verbatim>\<open>chain_id\<close>, with a
  snapshot of each chain section that \<^verbatim>\<open>sections_data\<close> holds.
\<close>

definition citation_chain_of :: "(string \<rightharpoonup> section_data) \<Rightarrow> string \<Rightarrow> chain_data \<Rightarrow> citation_chain" where
  "citation_chain_of secs cid c =
    \<lparr>ch_chain_id = cid,
     ch_primary_section = primary_section c,
     ch_chain_sections = chain_sections c,
     ch_chain_depth = estimated_complexity c,
     ch_references_count = int (length (chain_sections c)),
     ch_created_at = created_at c,
     complete_chain =
       concat (map (\<lambda>sec. case secs sec of
                       Some sd \<Rightarrow>
                         [\<lparr>ci_section = sec, ci_title = section_title sd, ci_url = url sd,
                           ci_url_hash = url_hash sd, ci_full_text = full_text sd,
                           ci_word_count = word_count sd\<rparr>]
                     | None \<Rightarrow> [])
                 (chain_sections c))\<rparr>"

fun put_chains ::
  "(string \<rightharpoonup> section_data) \<Rightarrow> (string \<rightharpoonup> citation_chain) \<Rightarrow> (string \<times> chain_data) list \<Rightarrow>
   error + (string \<rightharpoonup> citation_chain)" where
  "put_chains secs db [] = Inr db"
| "put_chains secs db ((cid, c) # items) =
    (case txn_put db cid (citation_chain_of secs cid c) of
       Inl e \<Rightarrow> Inl e
     | Inr db' \<Rightarrow> put_chains secs db' items)"

definition build_chains_database ::
  "(string \<rightharpoonup> section_data) \<Rightarrow> (string \<times> chain_data) list \<Rightarrow> error + (string \<rightharpoonup> citation_chain)" where
  "build_chains_database secs chains_map = put_chains secs Map.empty chains_map"

section \<open>Retriever (legal\_chain\_retriever.py)\<close>

text \<open>The tables the retriever opens, and its lookups: a missing key gives \<open>None\<close>.\<close>

record store =
  st_sections :: "string \<rightharpoonup> section_data"
  st_citations :: "string \<rightharpoonup> citation_data"
  st_reverse :: "string \<rightharpoonup> reverse_data"
  st_chains :: "string \<rightharpoonup> citation_chain"

definition get_section :: "store \<Rightarrow> string \<Rightarrow> section_data option" where
  "get_section s section_num = st_sections s section_num"

definition get_citations :: "store \<Rightarrow> string \<Rightarrow> citation_data option" where
  "get_citations s section_num = st_citations s section_num"

definition get_reverse_citations :: "store \<Rightarrow> string \<Rightarrow> reverse_data option" where
  "get_reverse_citations s section_num = st_reverse s section_num"

definition get_chain :: "store \<Rightarrow> string \<Rightarrow> citation_chain option" where
  "get_chain s section_num = st_chains s section_num"

text \<open>The bundle that \<^verbatim>\<open>get_complete_context\<close> returns.\<close>

record primary_entry =
  pe_section :: string
  pe_title :: string
  pe_url :: string
  pe_url_hash :: string
  pe_full_text :: string
  pe_word_count :: int
  pe_paragraph_count :: int

record reverse_entry =
  re_section :: string
  re_title :: string
  re_url :: string
  re_url_hash :: string

record source_entry =
  so_section :: string
  so_url :: string
  so_url_hash :: string
  so_verified_date :: string

record context_bundle =
  cb_primary_section :: primary_entry
  cb_direct_citations :: "chain_item list"
  cb_reverse_citations :: "reverse_entry list"
  cb_citation_chain :: "chain_item list"
  cb_total_context_words :: int
  cb_sources :: "source_entry list"
  cb_chain_depth :: "int option"

text \<open>\<^verbatim>\<open>xs[:n]\<close>: a negative \<open>n\<close> counts from the end.\<close>

definition py_slice_to :: "'a list \<Rightarrow> int \<Rightarrow> 'a list" where
  "py_slice_to xs n = (if n \<ge> 0 then take (nat n) xs else take (nat (int (length xs) + n)) xs)"

text \<open>
  \<^verbatim>\<open>get_complete_context(section_number, include_chain, include_reverse, max_chain_depth)\<close>.
  A details row whose section is not in the primary table adds nothing to the bundle
  (\<^verbatim>\<open>if ref_section:\<close>).
\<close>

definition get_complete_context :: "store \<Rightarrow> string \<Rightarrow> bool \<Rightarrow> bool \<Rightarrow> int \<Rightarrow> context_bundle option" where
  "get_complete_context s section_num include_chain include_reverse max_chain_depth =
    (case get_section s section_num of
       None \<Rightarrow> None
     | Some sec \<Rightarrow>
        (let found =
               (case get_citations s section_num of
                  None \<Rightarrow> []
                | Some citations \<Rightarrow>
                    concat (map (\<lambda>ref_detail.
                              case get_section s (rd_section ref_detail) of
                                Some ref_section \<Rightarrow> [(rd_section ref_detail, ref_section)]
                              | None \<Rightarrow> [])
                            (references_details citations)));
             reverse_found =
               (if include_reverse then
                  (case get_reverse_citations s section_num of
                     None \<Rightarrow> []
                   | Some rev_data \<Rightarrow>
                       concat (map (\<lambda>citing_detail.
                                 case get_section s (cg_section citing_detail) of
                                   Some citing_section \<Rightarrow>
                                     [\<lparr>re_section = cg_section citing_detail,
                                       re_title = section_title citing_section,
                                       re_url = url citing_section,
                                       re_url_hash = url_hash citing_section\<rparr>]
                                 | None \<Rightarrow> [])
                               (citing_details rev_data)))
                else []);
             chain_found = (if include_chain then get_chain s section_num else None);
             chain_items = (case chain_found of
                              None \<Rightarrow> []
                            | Some ch \<Rightarrow> py_slice_to (complete_chain ch) max_chain_depth)
         in Some
           \<lparr>cb_primary_section =
               \<lparr>pe_section = section_num, pe_title = section_title sec, pe_url = url sec,
                pe_url_hash = url_hash sec, pe_full_text = full_text sec,
                pe_word_count = word_count sec, pe_paragraph_count = paragraph_count sec\<rparr>,
            cb_direct_citations =
               map (\<lambda>(ref, ref_section).
                      \<lparr>ci_section = ref, ci_title = section_title ref_section, ci_url = url ref_section,
                       ci_url_hash = url_hash ref_section, ci_full_text = full_text ref_section,
                       ci_word_count = word_count ref_section\<rparr>) found,
            cb_reverse_citations = reverse_found,
            cb_citation_chain = chain_items,
            cb_total_context_words =
               word_count sec + (\<Sum>(ref, ref_section)\<leftarrow>found. word_count ref_section)
                 + (\<Sum>item\<leftarrow>filter (\<lambda>item. ci_section item \<noteq> section_num) chain_items. ci_word_count item),
            cb_sources =
               \<lparr>so_section = section_num, so_url = url sec, so_url_hash = url_hash sec,
                so_verified_date = scraped_date sec\<rparr>
               # map (\<lambda>(ref, ref_section).
                        \<lparr>so_section = ref, so_url = url ref_section, so_url_hash = url_hash ref_section,
                         so_verified_date = scraped_date ref_section\<rparr>) found,
            cb_chain_depth = (case chain_found of
                                None \<Rightarrow> None
                              | Some ch \<Rightarrow> Some (int (length chain_items)))\<rparr>))"

subsection \<open>The whole build\<close>

text \<open>
  \<^verbatim>\<open>build_all\<close> after \<^verbatim>\<open>load_citation_data\<close>: the tables are built in the order primary,
  citations, reverse citations, chains, each in one write transaction; an exception ends
  the build. The result is the store the retriever reads. (The metadata table, which no
  lookup below touches, is left out.)
\<close>

definition build_all ::
  "enricher option \<Rightarrow> (string \<times> string list) list \<Rightarrow> (string \<rightharpoonup> citation_context list) \<Rightarrow>
   chain_data list \<Rightarrow> string \<Rightarrow> doc list \<Rightarrow> error + store" where
  "build_all en cmap contexts_map chain_lines now docs =
    (let chains_map = load_chains chain_lines in
     case build_sections_database en cmap chains_map now docs of
       Inl e \<Rightarrow> Inl e
     | Inr st \<Rightarrow>
        (case build_citations_database (sections_data st) contexts_map cmap of
           Inl e \<Rightarrow> Inl e
         | Inr cdb \<Rightarrow>
            (case build_reverse_citations_database (sections_data st) cmap of
               Inl e \<Rightarrow> Inl e
             | Inr rdb \<Rightarrow>
                (case build_chains_database (sections_data st) chains_map of
                   Inl e \<Rightarrow> Inl e
                 | Inr chdb \<Rightarrow>
                     Inr \<lparr>st_sections = sections_db st, st_citations = cdb,
                          st_reverse = rdb, st_chains = chdb\<rparr>))))"

section \<open>Notions used in the proofs\<close>

text \<open>The citation edges of a citation map, and what the reverse dictionary holds for them.\<close>

definition edges_of :: "(string \<times> string list) list \<Rightarrow> (string \<times> string) set" where
  "edges_of cmap = {(s, t). \<exists>refs. (s, refs) \<in> set cmap \<and> t \<in> set refs}"

definition reverse_holds :: "(string \<times> string set) list \<Rightarrow> (string \<times> string) set \<Rightarrow> bool" where
  "reverse_holds d R =
    (\<forall>t. map_of d t = (if \<exists>s. (s, t) \<in> R then Some {s. (s, t) \<in> R} else None))"

text \<open>
  The values that the loop variable of the range expansion takes in the iterations that
  the loop performs, at most \<open>fuel\<close> of them: the start value, then one more value per
  \<^verbatim>\<open>current += 0.01\<close>, as long as the loop condition \<^verbatim>\<open>current <= end_num\<close> holds.
\<close>

fun loop_values :: "nat \<Rightarrow> py_float \<Rightarrow> py_float \<Rightarrow> py_float list" where
  "loop_values 0 current end_num = []"
| "loop_values (Suc n) current end_num =
    (if fle current end_num
     then current # loop_values n (fadd current (round_to_double (1 / 100))) end_num
     else [])"

definition stored_ok ::
  "enricher option \<Rightarrow> (string \<times> string list) list \<Rightarrow> (string \<times> string set) list \<Rightarrow> doc \<Rightarrow>
   string \<Rightarrow> section_data \<Rightarrow> bool" where
  "stored_ok en cmap rm d k sd =
    (section_number sd = k \<and> header sd = doc_header d \<and> paragraphs sd = doc_paragraphs d
     \<and> word_count sd = (\<Sum>p\<leftarrow>doc_paragraphs d. int (length (py_split_ws p)))
     \<and> paragraph_count sd = int (length (doc_paragraphs d))
     \<and> is_clickable sd = (map_of cmap k \<noteq> None \<or> map_of rm k \<noteq> None)
     \<and> citation_count sd = int (length (case map_of cmap k of None \<Rightarrow> [] | Some refs \<Rightarrow> refs))
     \<and> (case en of None \<Rightarrow> enrichment sd = None
         | Some e \<Rightarrow> map_option complexity (enrichment sd)
                      = Some (calculate_complexity (word_count sd) (paragraph_count sd) (citation_count sd))
                   \<and> map_option summary (enrichment sd) = Some (generate_summary (doc_header d))))"

definition sections_inv ::
  "enricher option \<Rightarrow> (string \<times> string list) list \<Rightarrow> (string \<times> string set) list \<Rightarrow> sections_state \<Rightarrow> bool" where
  "sections_inv en cmap rm st =
    (sections_data st = sections_db st \<and>
     (\<forall>k sd. sections_db st k = Some sd \<longrightarrow>
        (\<exists>d. CHR ''|'' \<in> set (doc_header d) \<and> stored_ok en cmap rm d k sd)))"

section \<open>Concrete inputs\<close>

text \<open>
  What a build step or a build left behind: the state after the step, or nothing when
  an exception ended it.
\<close>

definition sections_after :: "error + sections_state \<Rightarrow> string \<Rightarrow> section_data option" where
  "sections_after r k = (case r of Inl e \<Rightarrow> None | Inr st \<Rightarrow> sections_db st k)"

definition store_after :: "error + store \<Rightarrow> store" where
  "store_after r =
    (case r of
       Inl e \<Rightarrow> \<lparr>st_sections = Map.empty, st_citations = Map.empty, st_reverse = Map.empty, st_chains = Map.empty\<rparr>
     | Inr s \<Rightarrow> s)"

definition empty_state :: sections_state where
  "empty_state = \<lparr>sections_data = Map.empty, sections_db = Map.empty, sections_count = 0\<rparr>"

definition example_enricher :: enricher where
  "example_enricher =
    \<lparr>identify_practice_areas = (\<lambda>t n. [''general'']), extract_key_terms = (\<lambda>h t. [])\<rparr>"

definition doc_empty_paragraphs :: doc where
  "doc_empty_paragraphs =
    \<lparr>doc_url = ''https://example/orc/101.15'', doc_url_hash = ''a1b2c3d4e5f60718'',
     doc_header = ''Section 101.15|Meetings.'', doc_paragraphs = []\<rparr>"

definition doc_without_pipe :: doc where
  "doc_without_pipe =
    \<lparr>doc_url = ''https://example/orc/101.15'', doc_url_hash = ''a1b2c3d4e5f60718'',
     doc_header = ''Section 101.15 Meetings.'', doc_paragraphs = [''All meetings are public.'']\<rparr>"

definition doc_meetings :: doc where
  "doc_meetings =
    \<lparr>doc_url = ''https://example/orc/101.15'', doc_url_hash = ''a1b2c3d4e5f60718'',
     doc_header = ''Section 101.15|Meetings.'', doc_paragraphs = [''All meetings are public.'']\<rparr>"

text \<open>A citation map in which section 101.15 is a key with no references.\<close>

definition cmap_no_references :: "(string \<times> string list) list" where
  "cmap_no_references = [(''101.15'', [])]"

definition build_no_references :: "error + store" where
  "build_no_references =
     build_all None cmap_no_references Map.empty [] ''2025-01-01T00:00:00'' [doc_meetings]"

text \<open>A section that cites 9999.99, which no input record defines.\<close>

definition doc_murder :: doc where
  "doc_murder =
    \<lparr>doc_url = ''https://example/orc/2903.01'', doc_url_hash = ''a1b2c3d4e5f60718'',
     doc_header = ''Section 2903.01|Aggravated Murder.'',
     doc_paragraphs = [''Whoever violates section 9999.99 is guilty.'']\<rparr>"

definition build_dangling :: "error + store" where
  "build_dangling =
     build_all None [(''2903.01'', [''9999.99''])] Map.empty [] ''2025-01-01T00:00:00'' [doc_murder]"

text \<open>
  A citation map whose first section starts a chain of four sections: as the mapper holds
  it (sets of references), and as the builder loads it from the mapper's JSON file.
\<close>

definition cmap_chain_sets :: "(string \<times> string set) list" where
  "cmap_chain_sets =
    [(''101.15'', {''101.16''}), (''101.16'', {''101.17''}), (''101.17'', {''101.18''}), (''101.18'', {})]"

definition cmap_chain :: "(string \<times> string list) list" where
  "cmap_chain =
    [(''101.15'', [''101.16'']), (''101.16'', [''101.17'']), (''101.17'', [''101.18'']), (''101.18'', [])]"

definition chain_line_0 :: chain_data where
  "chain_line_0 =
    \<lparr>chain_id = ''complex_0'', primary_section = ''101.15'',
     chain_sections = [''101.15'', ''101.16'', ''101.17'', ''101.18''],
     estimated_complexity = 4, created_at = ''2025-01-01T00:00:00''\<rparr>"

definition build_chain_store :: "error + store" where
  "build_chain_store =
     build_all None cmap_chain Map.empty [chain_line_0] ''2025-01-01T00:00:00'' []"

section \<open>Verified properties\<close>

subsection \<open>Complexity\<close>

lemma adjust3:
  "(if a then s + 2 else if b then s + 1 else if d then s - 1 else s)
     = s + (if a then 2 else if b then 1 else if d then - 1 else (0::int))"
  by simp

lemma adjust2:
  "(if a then s + 2 else if b then s + 1 else s) = s + (if a then 2 else if b then 1 else (0::int))"
  by simp

lemma complexity_as_sum:
  "calculate_complexity w p c =
     max 1 (min 10 (5 + spec_word_adjust w + spec_paragraph_adjust p + spec_citation_adjust c))"
  unfolding calculate_complexity_def Let_def spec_word_adjust_def spec_paragraph_adjust_def
    spec_citation_adjust_def
  by (simp only: adjust3 adjust2)

lemma clamp_as_spec: "max 1 (min 10 x) = spec_clamp x"
  by (simp add: spec_clamp_def)

lemma complexity_is_spec: "calculate_complexity w p c = spec_complexity w p c"
  unfolding complexity_as_sum spec_complexity_def clamp_as_spec ..

lemma spec_complexity_bounds: "1 \<le> spec_complexity w p c \<and> spec_complexity w p c \<le> 10"
  by (simp add: spec_complexity_def spec_clamp_def)

subsection \<open>Offense level\<close>

lemma prefix_ci_app: "prefix_ci (a @ b) t \<Longrightarrow> prefix_ci b (drop (length a) t)"
  by (induction a t rule: prefix_ci.induct) auto

lemma re_search_ci_drop: "re_search_ci b (drop n t) \<Longrightarrow> re_search_ci b t"
proof (induction t arbitrary: n)
  case Nil then show ?case by simp
next
  case (Cons c cs)
  show ?case
  proof (cases n)
    case 0 with Cons.prems show ?thesis by simp
  next
    case (Suc m)
    with Cons.prems have "re_search_ci b (drop m cs)" by simp
    then have "re_search_ci b cs" by (rule Cons.IH)
    then show ?thesis by simp
  qed
qed

lemma re_search_ci_self: "prefix_ci b t \<Longrightarrow> re_search_ci b t"
  by (cases t) auto

lemma re_search_ci_suffix: "re_search_ci (a @ b) t \<Longrightarrow> re_search_ci b t"
proof (induction t)
  case Nil
  then have "prefix_ci b (drop (length a) [])" using prefix_ci_app[of a b "[]"] by simp
  then show ?case by (simp add: re_search_ci_self)
next
  case (Cons c cs)
  from Cons.prems have "prefix_ci (a @ b) (c # cs) \<or> re_search_ci (a @ b) cs" by simp
  then show ?case
  proof
    assume "prefix_ci (a @ b) (c # cs)"
    then have "prefix_ci b (drop (length a) (c # cs))" by (rule prefix_ci_app)
    then have "re_search_ci b (drop (length a) (c # cs))" by (rule re_search_ci_self)
    then show ?thesis by (rule re_search_ci_drop)
  next
    assume "re_search_ci (a @ b) cs"
    then have "re_search_ci b cs" by (rule Cons.IH)
    then show ?thesis by simp
  qed
qed

lemma minor_implies_misdemeanor:
  "re_search_ci ''minor misdemeanor'' t \<Longrightarrow> re_search_ci ''misdemeanor'' t"
  using re_search_ci_suffix[of "''minor ''" "''misdemeanor''" t] by simp

text \<open>
  Claim C10. For every input text the offense-level extraction never returns
  \<^verbatim>\<open>minor_misdemeanor\<close>: text carrying "minor misdemeanor" also carries "misdemeanor",
  which is tested first, so such text is classified as \<^verbatim>\<open>misdemeanor\<close>, or as
  \<^verbatim>\<open>felony\<close> when felony language is present as well.
\<close>

theorem offense_level_never_minor:
  "extract_offense_level t \<noteq> Some ''minor_misdemeanor''
   \<and> (re_search_ci ''minor misdemeanor'' t \<longrightarrow>
        extract_offense_level t = (if re_search_ci ''felony'' t then Some ''felony'' else Some ''misdemeanor''))"
  using minor_implies_misdemeanor[of t] by (auto simp: extract_offense_level_def)

text \<open>The theorem at a text that mentions a minor misdemeanor and no felony.\<close>

theorem offense_level_never_minor_witness:
  "re_search_ci ''minor misdemeanor'' ''is guilty of a Minor Misdemeanor.''
   \<and> extract_offense_level ''is guilty of a Minor Misdemeanor.'' = Some ''misdemeanor''"
proof -
  have h: "re_search_ci ''minor misdemeanor'' ''is guilty of a Minor Misdemeanor.''" by code_simp
  have f: "\<not> re_search_ci ''felony'' ''is guilty of a Minor Misdemeanor.''" by code_simp
  from offense_level_never_minor[of "''is guilty of a Minor Misdemeanor.''"] h f show ?thesis by presburger
qed
subsection \<open>Reference chains\<close>

lemma chain_loop_distinct:
  "distinct chain \<Longrightarrow> visited = set chain \<Longrightarrow>
   distinct (build_chain_loop so cm max_size chain visited queue)"
  by (induction so cm max_size chain visited queue rule: build_chain_loop.induct) auto

text \<open>
  Claim C8. Chain construction is breadth-first with per-chain visitation, so no id
  appears twice in a chain, whatever the order in which the sets of references are
  listed. On the forward map of the scenario, with \<open>max_size = 8\<close> and the expansion limit
  of three references per node, the chain of \<open>A\<close> is \<open>A, B, C, D, E, F, G, H\<close> when every
  set of references is listed in the order in which the scenario writes it.
\<close>

theorem chain_bfs_scenario:
  "distinct (build_reference_chain set_order start_section citation_map max_size)
   \<and> (set_order {''B'', ''C''} = [''B'', ''C''] \<and> set_order {''D'', ''E''} = [''D'', ''E'']
        \<and> set_order {''F''} = [''F''] \<and> set_order {''G'', ''H''} = [''G'', ''H'']
        \<and> set_order {''I''} = [''I''] \<and> set_order {} = []
      \<longrightarrow> build_reference_chain set_order ''A'' (map_of scenario_forward_map) 8
            = [''A'', ''B'', ''C'', ''D'', ''E'', ''F'', ''G'', ''H''])"
proof (intro conjI impI)
  show "distinct (build_reference_chain set_order start_section citation_map max_size)"
    unfolding build_reference_chain_def by (rule chain_loop_distinct) simp_all
next
  assume "set_order {''B'', ''C''} = [''B'', ''C''] \<and> set_order {''D'', ''E''} = [''D'', ''E'']
        \<and> set_order {''F''} = [''F''] \<and> set_order {''G'', ''H''} = [''G'', ''H'']
        \<and> set_order {''I''} = [''I''] \<and> set_order {} = []"
  then show "build_reference_chain set_order ''A'' (map_of scenario_forward_map) 8
            = [''A'', ''B'', ''C'', ''D'', ''E'', ''F'', ''G'', ''H'']"
    by (simp add: build_reference_chain_def scenario_forward_map_def)
qed

text \<open>
  The theorem for the listing order that follows \<open>A, B, C, D, E, F, G, H, I\<close>.
\<close>

lemma order_scenario:
  "order_by [''A'', ''B'', ''C'', ''D'', ''E'', ''F'', ''G'', ''H'', ''I''] {''B'', ''C''} = [''B'', ''C'']"
  "order_by [''A'', ''B'', ''C'', ''D'', ''E'', ''F'', ''G'', ''H'', ''I''] {''D'', ''E''} = [''D'', ''E'']"
  "order_by [''A'', ''B'', ''C'', ''D'', ''E'', ''F'', ''G'', ''H'', ''I''] {''F''} = [''F'']"
  "order_by [''A'', ''B'', ''C'', ''D'', ''E'', ''F'', ''G'', ''H'', ''I''] {''G'', ''H''} = [''G'', ''H'']"
  "order_by [''A'', ''B'', ''C'', ''D'', ''E'', ''F'', ''G'', ''H'', ''I''] {''I''} = [''I'']"
  "order_by [''A'', ''B'', ''C'', ''D'', ''E'', ''F'', ''G'', ''H'', ''I''] {} = []"
  by (simp_all add: order_by_def)

theorem chain_bfs_scenario_witness:
  "order_by [''A'', ''B'', ''C'', ''D'', ''E'', ''F'', ''G'', ''H'', ''I''] {''B'', ''C''} = [''B'', ''C'']
   \<and> order_by [''A'', ''B'', ''C'', ''D'', ''E'', ''F'', ''G'', ''H'', ''I''] {''D'', ''E''} = [''D'', ''E'']
   \<and> order_by [''A'', ''B'', ''C'', ''D'', ''E'', ''F'', ''G'', ''H'', ''I''] {''F''} = [''F'']
   \<and> order_by [''A'', ''B'', ''C'', ''D'', ''E'', ''F'', ''G'', ''H'', ''I''] {''G'', ''H''} = [''G'', ''H'']
   \<and> order_by [''A'', ''B'', ''C'', ''D'', ''E'', ''F'', ''G'', ''H'', ''I''] {''I''} = [''I'']
   \<and> order_by [''A'', ''B'', ''C'', ''D'', ''E'', ''F'', ''G'', ''H'', ''I''] {} = []
   \<and> build_reference_chain (order_by [''A'', ''B'', ''C'', ''D'', ''E'', ''F'', ''G'', ''H'', ''I''])
        ''A'' (map_of scenario_forward_map) 8
      = [''A'', ''B'', ''C'', ''D'', ''E'', ''F'', ''G'', ''H'']
   \<and> distinct (build_reference_chain (order_by [''A'', ''B'', ''C'', ''D'', ''E'', ''F'', ''G'', ''H'', ''I''])
        ''A'' (map_of scenario_forward_map) 8)"
  using chain_bfs_scenario [of "order_by [''A'', ''B'', ''C'', ''D'', ''E'', ''F'', ''G'', ''H'', ''I'']"
      "''A''" "map_of scenario_forward_map" 8] order_scenario
  by blast

text \<open>
  The citation map holds sets, so the order of the scenario is one of several. When the
  set \<open>{D, E}\<close> is listed as \<open>E, D\<close> and every other set as the scenario writes it, the
  chain of \<open>A\<close> is \<open>A, B, C, E, D, F, G, H\<close>.
\<close>

theorem chain_bfs_counterexample:
  "order_by [''A'', ''B'', ''C'', ''E'', ''D'', ''F'', ''G'', ''H'', ''I''] {''B'', ''C''} = [''B'', ''C'']
   \<and> order_by [''A'', ''B'', ''C'', ''E'', ''D'', ''F'', ''G'', ''H'', ''I''] {''D'', ''E''} = [''E'', ''D'']
   \<and> order_by [''A'', ''B'', ''C'', ''E'', ''D'', ''F'', ''G'', ''H'', ''I''] {''F''} = [''F'']
   \<and> order_by [''A'', ''B'', ''C'', ''E'', ''D'', ''F'', ''G'', ''H'', ''I''] {''G'', ''H''} = [''G'', ''H'']
   \<and> order_by [''A'', ''B'', ''C'', ''E'', ''D'', ''F'', ''G'', ''H'', ''I''] {''I''} = [''I'']
   \<and> order_by [''A'', ''B'', ''C'', ''E'', ''D'', ''F'', ''G'', ''H'', ''I''] {} = []
   \<and> build_reference_chain (order_by [''A'', ''B'', ''C'', ''E'', ''D'', ''F'', ''G'', ''H'', ''I''])
        ''A'' (map_of scenario_forward_map) 8
      = [''A'', ''B'', ''C'', ''E'', ''D'', ''F'', ''G'', ''H'']
   \<and> build_reference_chain (order_by [''A'', ''B'', ''C'', ''E'', ''D'', ''F'', ''G'', ''H'', ''I''])
        ''A'' (map_of scenario_forward_map) 8
      \<noteq> [''A'', ''B'', ''C'', ''D'', ''E'', ''F'', ''G'', ''H'']"
  by (simp add: build_reference_chain_def scenario_forward_map_def order_by_def)

subsection \<open>Dictionaries, the reverse map and the tables\<close>

lemma map_of_dict_put: "map_of (dict_put d k v) = (map_of d)(k \<mapsto> v)"
  by (induction d) auto

lemma keys_dict_put: "fst ` set (dict_put d k v) = insert k (fst ` set d)"
  by (simp add: dom_map_of_conv_image_fst[symmetric] map_of_dict_put)

lemma distinct_dict_put: "distinct (map fst d) \<Longrightarrow> distinct (map fst (dict_put d k v))"
proof (induction d)
  case Nil then show ?case by simp
next
  case (Cons a d)
  obtain k' v' where a: "a = (k', v')" by (cases a)
  show ?case
  proof (cases "k' = k")
    case True with Cons.prems a show ?thesis by simp
  next
    case False
    have "k' \<notin> fst ` set (dict_put d k v)"
      using Cons.prems a False by (simp add: keys_dict_put)
    with Cons a False show ?thesis by simp
  qed
qed

lemma add_citing_holds:
  assumes "reverse_holds d R"
  shows "reverse_holds (add_citing d s t) (insert (s, t) R)"
  unfolding reverse_holds_def
proof
  fix u
  from assms have du: "map_of d u = (if \<exists>s. (s, u) \<in> R then Some {s. (s, u) \<in> R} else None)"
    by (simp add: reverse_holds_def)
  show "map_of (add_citing d s t) u =
     (if \<exists>s'. (s', u) \<in> insert (s, t) R then Some {s'. (s', u) \<in> insert (s, t) R} else None)"
  proof (cases "u = t")
    case True
    have "{s'. (s', t) \<in> insert (s, t) R} = insert s {s'. (s', t) \<in> R}" by auto
    moreover have "(case map_of d t of None \<Rightarrow> {} | Some c \<Rightarrow> c) = {s'. (s', t) \<in> R}"
      using du True by auto
    ultimately show ?thesis using True
      by (auto simp: add_citing_def map_of_dict_put)
  next
    case False
    then show ?thesis using du by (simp add: add_citing_def map_of_dict_put)
  qed
qed

lemma add_citing_distinct: "distinct (map fst d) \<Longrightarrow> distinct (map fst (add_citing d s t))"
  by (simp add: add_citing_def distinct_dict_put)

lemma inner_holds:
  "reverse_holds d R \<Longrightarrow> distinct (map fst d) \<Longrightarrow>
   reverse_holds (foldl (\<lambda>d ref. add_citing d s ref) d refs) (R \<union> {s} \<times> set refs)
   \<and> distinct (map fst (foldl (\<lambda>d ref. add_citing d s ref) d refs))"
proof (induction refs arbitrary: d R)
  case Nil then show ?case by simp
next
  case (Cons r refs)
  have h: "reverse_holds (add_citing d s r) (insert (s, r) R)"
    using Cons.prems(1) by (rule add_citing_holds)
  have dd: "distinct (map fst (add_citing d s r))"
    using Cons.prems(2) by (rule add_citing_distinct)
  have eq: "insert (s, r) R \<union> {s} \<times> set refs = R \<union> {s} \<times> set (r # refs)" by auto
  from Cons.IH[OF h dd] show ?case by (simp add: eq)
qed

lemma edges_of_Cons: "edges_of ((s, refs) # cmap) = {s} \<times> set refs \<union> edges_of cmap"
  by (auto simp: edges_of_def)

lemma outer_holds:
  "reverse_holds d R \<Longrightarrow> distinct (map fst d) \<Longrightarrow>
   reverse_holds (foldl (\<lambda>d (sec, refs). foldl (\<lambda>d ref. add_citing d sec ref) d refs) d cmap) (R \<union> edges_of cmap)
   \<and> distinct (map fst (foldl (\<lambda>d (sec, refs). foldl (\<lambda>d ref. add_citing d sec ref) d refs) d cmap))"
proof (induction cmap arbitrary: d R)
  case Nil then show ?case by (simp add: edges_of_def)
next
  case (Cons a cmap)
  obtain s refs where a: "a = (s, refs)" by (cases a)
  from inner_holds[OF Cons.prems, of s refs]
  have h: "reverse_holds (foldl (\<lambda>d ref. add_citing d s ref) d refs) (R \<union> {s} \<times> set refs)"
    and dd: "distinct (map fst (foldl (\<lambda>d ref. add_citing d s ref) d refs))" by simp_all
  have eq: "R \<union> {s} \<times> set refs \<union> edges_of cmap = R \<union> edges_of ((s, refs) # cmap)"
    by (auto simp: edges_of_Cons)
  from Cons.IH[OF h dd] show ?case by (simp add: a eq)
qed

lemma build_reverse_map_holds:
  "reverse_holds (build_reverse_map cmap) (edges_of cmap)"
  "distinct (map fst (build_reverse_map cmap))"
proof -
  have "reverse_holds [] {}" by (simp add: reverse_holds_def)
  from outer_holds[OF this, of cmap] show "reverse_holds (build_reverse_map cmap) (edges_of cmap)"
    "distinct (map fst (build_reverse_map cmap))"
    by (simp_all add: build_reverse_map_def)
qed

lemma finite_edges_of: "finite (edges_of cmap)"
proof -
  have "edges_of cmap \<subseteq> (\<Union>(s, refs) \<in> set cmap. {s} \<times> set refs)"
    by (auto simp: edges_of_def)
  moreover have "finite (\<Union>(s, refs) \<in> set cmap. {s} \<times> set refs)" by auto
  ultimately show ?thesis by (rule finite_subset)
qed

lemma finite_citing: "finite {s. (s, t) \<in> edges_of cmap}"
proof -
  have "{s. (s, t) \<in> edges_of cmap} \<subseteq> fst ` edges_of cmap" by force
  then show ?thesis using finite_edges_of[of cmap] by (meson finite_imageI finite_subset)
qed

lemma txn_put_Inr: "txn_put db k v = Inr db' \<Longrightarrow> db' = db(k \<mapsto> v)"
  by (auto simp: txn_put_def split: if_splits)

lemma put_citations_lookup:
  "put_citations secs ctx db items = Inr db' \<Longrightarrow> distinct (map fst items) \<Longrightarrow>
   db' k = (case map_of items k of Some refs \<Rightarrow> Some (citation_data_of secs ctx k refs) | None \<Rightarrow> db k)"
proof (induction items arbitrary: db)
  case Nil then show ?case by simp
next
  case (Cons a items)
  obtain s refs where a: "a = (s, refs)" by (cases a)
  from Cons.prems(1) a obtain db1 where
    p: "txn_put db s (citation_data_of secs ctx s refs) = Inr db1"
    and r: "put_citations secs ctx db1 items = Inr db'"
    by (auto split: sum.splits)
  from Cons.prems(2) a have d: "distinct (map fst items)" and n: "s \<notin> fst ` set items" by auto
  have ih: "db' k = (case map_of items k of Some refs \<Rightarrow> Some (citation_data_of secs ctx k refs) | None \<Rightarrow> db1 k)"
    by (rule Cons.IH[OF r d])
  have db1: "db1 = db(s \<mapsto> citation_data_of secs ctx s refs)" using p by (rule txn_put_Inr)
  show ?case
  proof (cases "k = s")
    case True
    with n have "map_of items k = None" by (simp add: map_of_eq_None_iff)
    with ih db1 True a show ?thesis by simp
  next
    case False
    with ih db1 a show ?thesis by (simp split: option.splits)
  qed
qed

lemma put_reverse_lookup:
  "put_reverse secs db items = Inr db' \<Longrightarrow> distinct (map fst items) \<Longrightarrow>
   db' k = (case map_of items k of Some citing \<Rightarrow> Some (reverse_data_of secs k citing) | None \<Rightarrow> db k)"
proof (induction items arbitrary: db)
  case Nil then show ?case by simp
next
  case (Cons a items)
  obtain s citing where a: "a = (s, citing)" by (cases a)
  from Cons.prems(1) a obtain db1 where
    p: "txn_put db s (reverse_data_of secs s citing) = Inr db1"
    and r: "put_reverse secs db1 items = Inr db'"
    by (auto split: sum.splits)
  from Cons.prems(2) a have d: "distinct (map fst items)" and n: "s \<notin> fst ` set items" by auto
  have ih: "db' k = (case map_of items k of Some citing \<Rightarrow> Some (reverse_data_of secs k citing) | None \<Rightarrow> db1 k)"
    by (rule Cons.IH[OF r d])
  have db1: "db1 = db(s \<mapsto> reverse_data_of secs s citing)" using p by (rule txn_put_Inr)
  show ?case
  proof (cases "k = s")
    case True
    with n have "map_of items k = None" by (simp add: map_of_eq_None_iff)
    with ih db1 True a show ?thesis by simp
  next
    case False
    with ih db1 a show ?thesis by (simp split: option.splits)
  qed
qed

lemma citations_member:
  assumes "distinct (map fst cmap)" "build_citations_database secs ctx cmap = Inr cdb"
  shows "(\<exists>cd. cdb s = Some cd \<and> t \<in> set (direct_references cd)) \<longleftrightarrow> (s, t) \<in> edges_of cmap"
proof -
  have l: "cdb s = (case map_of cmap s of Some refs \<Rightarrow> Some (citation_data_of secs ctx s refs) | None \<Rightarrow> None)"
    using put_citations_lookup[OF assms(2)[unfolded build_citations_database_def] assms(1), of s] by simp
  have m: "\<And>refs. (map_of cmap s = Some refs) = ((s, refs) \<in> set cmap)"
    using assms(1) by simp
  show ?thesis
  proof
    assume "\<exists>cd. cdb s = Some cd \<and> t \<in> set (direct_references cd)"
    then obtain cd where c: "cdb s = Some cd" and t: "t \<in> set (direct_references cd)" by blast
    from c l obtain refs where r: "map_of cmap s = Some refs" and cd: "cd = citation_data_of secs ctx s refs"
      by (auto split: option.splits)
    from t cd have "t \<in> set refs" by (simp add: citation_data_of_def Let_def)
    with r m show "(s, t) \<in> edges_of cmap" by (auto simp: edges_of_def)
  next
    assume "(s, t) \<in> edges_of cmap"
    then obtain refs where "(s, refs) \<in> set cmap" and t: "t \<in> set refs" by (auto simp: edges_of_def)
    with m have "map_of cmap s = Some refs" by simp
    with l have "cdb s = Some (citation_data_of secs ctx s refs)" by simp
    moreover have "t \<in> set (direct_references (citation_data_of secs ctx s refs))"
      using t by (simp add: citation_data_of_def Let_def)
    ultimately show "\<exists>cd. cdb s = Some cd \<and> t \<in> set (direct_references cd)" by blast
  qed
qed

lemma reverse_member:
  assumes "build_reverse_citations_database secs cmap = Inr rdb"
  shows "(\<exists>rd. rdb t = Some rd \<and> s \<in> set (cited_by rd)) \<longleftrightarrow> (s, t) \<in> edges_of cmap"
proof -
  have l: "rdb t = (case map_of (build_reverse_map cmap) t of
              Some citing \<Rightarrow> Some (reverse_data_of secs t citing) | None \<Rightarrow> None)"
    using put_reverse_lookup[OF assms[unfolded build_reverse_citations_database_def]
        build_reverse_map_holds(2), of t] by simp
  have h: "map_of (build_reverse_map cmap) t =
      (if \<exists>s. (s, t) \<in> edges_of cmap then Some {s. (s, t) \<in> edges_of cmap} else None)"
    using build_reverse_map_holds(1)[of cmap] by (simp add: reverse_holds_def)
  have c: "set (cited_by (reverse_data_of secs t {s. (s, t) \<in> edges_of cmap})) = {s. (s, t) \<in> edges_of cmap}"
    using finite_citing[of t cmap] by (simp add: reverse_data_of_def)
  show ?thesis
  proof (cases "\<exists>s. (s, t) \<in> edges_of cmap")
    case True
    with l h have "rdb t = Some (reverse_data_of secs t {s. (s, t) \<in> edges_of cmap})" by simp
    with c show ?thesis by auto
  next
    case False
    with l h have "rdb t = None" by simp
    with False show ?thesis by auto
  qed
qed

text \<open>
  Claim C3. After a build, for every pair of ids \<open>(s, t)\<close>: \<open>t\<close> is among the
  \<^verbatim>\<open>direct_references\<close> of the citations entry of \<open>s\<close> if and only if \<open>s\<close> is among the
  \<^verbatim>\<open>cited_by\<close> of the reverse citations entry of \<open>t\<close>. The citation map is a dictionary
  (distinct keys), and both tables were written without an error.
\<close>

theorem reverse_forward_symmetry:
  assumes "distinct (map fst cmap)"
    and "build_citations_database secs ctx cmap = Inr cdb"
    and "build_reverse_citations_database secs cmap = Inr rdb"
  shows "(\<exists>cd. cdb s = Some cd \<and> t \<in> set (direct_references cd))
         \<longleftrightarrow> (\<exists>rd. rdb t = Some rd \<and> s \<in> set (cited_by rd))"
  using citations_member[OF assms(1,2), of s t] reverse_member[OF assms(3), of t s] by simp

text \<open>The theorem on the citation map in which 2903.01 cites 2901.22.\<close>

theorem reverse_forward_symmetry_witness:
  "distinct (map fst [(''2903.01'', [''2901.22''])])
   \<and> build_citations_database Map.empty Map.empty [(''2903.01'', [''2901.22''])]
       = Inr [''2903.01'' \<mapsto> citation_data_of Map.empty Map.empty ''2903.01'' [''2901.22'']]
   \<and> build_reverse_citations_database Map.empty [(''2903.01'', [''2901.22''])]
       = Inr [''2901.22'' \<mapsto> reverse_data_of Map.empty ''2901.22'' {''2903.01''}]
   \<and> ((\<exists>cd. [''2903.01'' \<mapsto> citation_data_of Map.empty Map.empty ''2903.01'' [''2901.22'']] ''2903.01'' = Some cd
            \<and> ''2901.22'' \<in> set (direct_references cd))
        \<longleftrightarrow> (\<exists>rd. [''2901.22'' \<mapsto> reverse_data_of Map.empty ''2901.22'' {''2903.01''}] ''2901.22'' = Some rd
            \<and> ''2903.01'' \<in> set (cited_by rd)))"
proof -
  have h1: "distinct (map fst [(''2903.01'', [''2901.22''])])" by simp
  have h2: "build_citations_database Map.empty Map.empty [(''2903.01'', [''2901.22''])]
       = Inr [''2903.01'' \<mapsto> citation_data_of Map.empty Map.empty ''2903.01'' [''2901.22'']]"
    by (simp add: build_citations_database_def txn_put_def)
  have h3: "build_reverse_citations_database Map.empty [(''2903.01'', [''2901.22''])]
       = Inr [''2901.22'' \<mapsto> reverse_data_of Map.empty ''2901.22'' {''2903.01''}]"
    by (simp add: build_reverse_citations_database_def build_reverse_map_def add_citing_def txn_put_def)
  from reverse_forward_symmetry[OF h1 h2 h3, of "''2903.01''" "''2901.22''"] h1 h2 h3
  show ?thesis by blast
qed

subsection \<open>The primary table\<close>

lemma process_doc_skip:
  "CHR ''|'' \<notin> set (doc_header d) \<Longrightarrow> process_doc en cmap rm chm now st d = Inr st"
  by (simp add: process_doc_def)

lemma section_record_ok: "stored_ok None cmap rm d k (section_record cmap rm chm now d k title)"
  by (simp add: stored_ok_def section_record_def Let_def)

lemma enrich_section_ok:
  "stored_ok None cmap rm d k sd \<Longrightarrow>
   stored_ok (Some e) cmap rm d k
     (enrich_section e sd (int (length (case map_of cmap k of None \<Rightarrow> [] | Some refs \<Rightarrow> refs))))"
  by (simp add: stored_ok_def enrich_section_def Let_def)

lemma process_doc_store:
  assumes "CHR ''|'' \<in> set (doc_header d)" "process_doc en cmap rm chm now st d = Inr st'"
  shows "\<exists>k sd. sections_db st' = (sections_db st)(k \<mapsto> sd)
           \<and> sections_data st' = (sections_data st)(k \<mapsto> sd) \<and> stored_ok en cmap rm d k sd"
proof -
  from assms obtain k title where ph: "parse_header (doc_header d) = Inr (k, title)"
    by (auto simp: process_doc_def split: sum.splits)
  let ?sd0 = "section_record cmap rm chm now d k title"
  let ?sd = "(case en of None \<Rightarrow> ?sd0
     | Some e \<Rightarrow> enrich_section e ?sd0 (int (length (case map_of cmap k of None \<Rightarrow> [] | Some refs \<Rightarrow> refs))))"
  have ok: "stored_ok en cmap rm d k ?sd"
    by (cases en) (simp_all add: section_record_ok enrich_section_ok)
  from assms ph have "st' = \<lparr>sections_data = (sections_data st)(k \<mapsto> ?sd),
      sections_db = (sections_db st)(k \<mapsto> ?sd), sections_count = Suc (sections_count st)\<rparr>"
    by (auto simp: process_doc_def Let_def txn_put_def split: sum.splits if_splits)
  with ok show ?thesis by auto
qed

lemma process_doc_inv:
  assumes "sections_inv en cmap rm st" "process_doc en cmap rm chm now st d = Inr st'"
  shows "sections_inv en cmap rm st'"
proof (cases "CHR ''|'' \<in> set (doc_header d)")
  case False
  with assms show ?thesis by (simp add: process_doc_skip)
next
  case True
  from process_doc_store[OF True assms(2)] obtain k sd where
    db: "sections_db st' = (sections_db st)(k \<mapsto> sd)"
    and dt: "sections_data st' = (sections_data st)(k \<mapsto> sd)"
    and ok: "stored_ok en cmap rm d k sd" by blast
  from assms(1) have eq: "sections_data st = sections_db st"
    and old: "\<And>k sd. sections_db st k = Some sd \<Longrightarrow>
        \<exists>d. CHR ''|'' \<in> set (doc_header d) \<and> stored_ok en cmap rm d k sd"
    by (auto simp: sections_inv_def)
  show ?thesis
    unfolding sections_inv_def
  proof (intro conjI allI impI)
    show "sections_data st' = sections_db st'" using db dt eq by simp
  next
    fix k' sd' assume "sections_db st' k' = Some sd'"
    then have "(k' = k \<and> sd' = sd) \<or> sections_db st k' = Some sd'"
      using db by (auto split: if_splits)
    then show "\<exists>d. CHR ''|'' \<in> set (doc_header d) \<and> stored_ok en cmap rm d k' sd'"
      using ok True old by blast
  qed
qed

lemma process_docs_inv:
  "sections_inv en cmap rm st \<Longrightarrow> process_docs en cmap rm chm now st docs = Inr st' \<Longrightarrow>
   sections_inv en cmap rm st'"
proof (induction docs arbitrary: st)
  case Nil then show ?case by simp
next
  case (Cons d docs)
  from Cons.prems(2) obtain st1 where
    s1: "process_doc en cmap rm chm now st d = Inr st1"
    and s2: "process_docs en cmap rm chm now st1 docs = Inr st'"
    by (auto split: sum.splits)
  from process_doc_inv[OF Cons.prems(1) s1] have "sections_inv en cmap rm st1" .
  from Cons.IH[OF this s2] show ?case .
qed

lemma build_sections_inv:
  "build_sections_database en cmap chm now docs = Inr st \<Longrightarrow>
   sections_inv en cmap (build_reverse_map cmap) st"
proof -
  assume b: "build_sections_database en cmap chm now docs = Inr st"
  have i0: "sections_inv en cmap (build_reverse_map cmap)
      \<lparr>sections_data = Map.empty, sections_db = Map.empty, sections_count = 0\<rparr>"
    by (simp add: sections_inv_def)
  from process_docs_inv[OF i0 b[unfolded build_sections_database_def]] show ?thesis .
qed

lemma build_all_parts:
  assumes "build_all en cmap ctx chain_lines now docs = Inr s"
  obtains st where "build_sections_database en cmap (load_chains chain_lines) now docs = Inr st"
    and "st_sections s = sections_db st"
    and "build_citations_database (sections_data st) ctx cmap = Inr (st_citations s)"
    and "build_reverse_citations_database (sections_data st) cmap = Inr (st_reverse s)"
    and "build_chains_database (sections_data st) (load_chains chain_lines) = Inr (st_chains s)"
  using assms by (auto simp: build_all_def Let_def split: sum.splits)

lemma reverse_entry_iff:
  assumes "build_reverse_citations_database secs cmap = Inr rdb"
  shows "rdb k \<noteq> None \<longleftrightarrow> map_of (build_reverse_map cmap) k \<noteq> None"
  using put_reverse_lookup[OF assms[unfolded build_reverse_citations_database_def]
        build_reverse_map_holds(2), of k]
  by (auto split: option.splits)

text \<open>
  Claim C2, as the code has it. For every section stored in the primary table,
  \<^verbatim>\<open>is_clickable\<close> is true if and only if the section's id is a key of the citation map
  (whatever the length of its reference list) or a reverse citations entry for its id
  exists; \<^verbatim>\<open>citation_count\<close> is the length of that list, zero for a missing key.
\<close>

theorem clickable_iff_key_or_cited:
  assumes "build_all en cmap ctx chain_lines now docs = Inr s"
    and "st_sections s k = Some sd"
  shows "(is_clickable sd \<longleftrightarrow> map_of cmap k \<noteq> None \<or> st_reverse s k \<noteq> None)
         \<and> citation_count sd = (case map_of cmap k of None \<Rightarrow> 0 | Some refs \<Rightarrow> int (length refs))"
proof -
  from assms(1) obtain st where
    b: "build_sections_database en cmap (load_chains chain_lines) now docs = Inr st"
    and e: "st_sections s = sections_db st"
    and r: "build_reverse_citations_database (sections_data st) cmap = Inr (st_reverse s)"
    by (rule build_all_parts)
  from build_sections_inv[OF b] assms(2) e obtain d where
    "stored_ok en cmap (build_reverse_map cmap) d k sd"
    by (auto simp: sections_inv_def)
  then have c: "is_clickable sd = (map_of cmap k \<noteq> None \<or> map_of (build_reverse_map cmap) k \<noteq> None)"
    and n: "citation_count sd = int (length (case map_of cmap k of None \<Rightarrow> [] | Some refs \<Rightarrow> refs))"
    by (simp_all add: stored_ok_def)
  from c reverse_entry_iff[OF r, of k]
  have "is_clickable sd \<longleftrightarrow> map_of cmap k \<noteq> None \<or> st_reverse s k \<noteq> None" by simp
  moreover from n have "citation_count sd = (case map_of cmap k of None \<Rightarrow> 0 | Some refs \<Rightarrow> int (length refs))"
    by (simp split: option.splits)
  ultimately show ?thesis by simp
qed

text \<open>
  Concrete builds are evaluated step by step: the header is parsed, the record is
  written, and the tables of the store are read off.
\<close>

lemma parse_header_meetings: "parse_header ''Section 101.15|Meetings.'' = Inr (''101.15'', ''Meetings.'')"
  by (simp add: parse_header_def py_split_on_def py_strip_def py_isspace_def starts_with_def)

lemma build_no_references_eq:
  "build_no_references =
     Inr \<lparr>st_sections = [''101.15'' \<mapsto> section_record cmap_no_references [] [] ''2025-01-01T00:00:00'' doc_meetings ''101.15'' ''Meetings.''],
          st_citations = [''101.15'' \<mapsto> citation_data_of
              [''101.15'' \<mapsto> section_record cmap_no_references [] [] ''2025-01-01T00:00:00'' doc_meetings ''101.15'' ''Meetings.'']
              Map.empty ''101.15'' []],
          st_reverse = Map.empty, st_chains = Map.empty\<rparr>"
  by (simp add: build_no_references_def build_all_def build_sections_database_def build_reverse_map_def
      process_doc_def doc_meetings_def parse_header_meetings txn_put_def load_chains_def
      build_citations_database_def build_reverse_citations_database_def build_chains_database_def
      cmap_no_references_def Let_def)

text \<open>
  The theorem on the build whose citation map holds section 101.15 with an empty
  reference list.
\<close>

theorem clickable_iff_key_or_cited_witness:
  "build_all None cmap_no_references Map.empty [] ''2025-01-01T00:00:00'' [doc_meetings]
     = Inr (store_after build_no_references)
   \<and> st_sections (store_after build_no_references) ''101.15''
     = Some (section_record cmap_no_references [] [] ''2025-01-01T00:00:00'' doc_meetings ''101.15'' ''Meetings.'')
   \<and> (is_clickable (section_record cmap_no_references [] [] ''2025-01-01T00:00:00'' doc_meetings ''101.15'' ''Meetings.'')
        \<longleftrightarrow> map_of cmap_no_references ''101.15'' \<noteq> None
            \<or> st_reverse (store_after build_no_references) ''101.15'' \<noteq> None)
   \<and> citation_count (section_record cmap_no_references [] [] ''2025-01-01T00:00:00'' doc_meetings ''101.15'' ''Meetings.'')
       = (case map_of cmap_no_references ''101.15'' of None \<Rightarrow> 0 | Some refs \<Rightarrow> int (length refs))"
proof -
  have h1: "build_all None cmap_no_references Map.empty [] ''2025-01-01T00:00:00'' [doc_meetings]
     = Inr (store_after build_no_references)"
    unfolding build_no_references_eq
    by (simp add: store_after_def build_no_references_eq[unfolded build_no_references_def])
  have h2: "st_sections (store_after build_no_references) ''101.15''
     = Some (section_record cmap_no_references [] [] ''2025-01-01T00:00:00'' doc_meetings ''101.15'' ''Meetings.'')"
    unfolding build_no_references_eq by (simp add: store_after_def)
  from clickable_iff_key_or_cited[OF h1 h2] h1 h2 show ?thesis by blast
qed

text \<open>
  On that build the stored section 101.15 is clickable although its forward citation
  count is zero and the reverse citations table has no entry for it.
\<close>

theorem clickable_counterexample:
  "map_option is_clickable (get_section (store_after build_no_references) ''101.15'') = Some True
   \<and> map_option citation_count (get_section (store_after build_no_references) ''101.15'') = Some 0
   \<and> get_reverse_citations (store_after build_no_references) ''101.15'' = None"
  unfolding build_no_references_eq
  by (simp add: store_after_def get_section_def get_reverse_citations_def section_record_def
      cmap_no_references_def Let_def)

text \<open>
  Claim C7, as the code has it. A record whose header contains no pipe is skipped: the
  state of the build is unchanged, so every section in the primary table has a header
  with a pipe. The enricher's summary of a header without a pipe is the header with
  surrounding whitespace removed.
\<close>

theorem header_without_pipe_is_skipped:
  "(CHR ''|'' \<notin> set (doc_header d) \<longrightarrow>
      process_doc en cmap rm chm now st d = Inr st
      \<and> generate_summary (doc_header d) = py_strip (doc_header d))
   \<and> (build_sections_database en cmap chm now docs = Inr st' \<and> sections_db st' k = Some sd \<longrightarrow>
      CHR ''|'' \<in> set (header sd))"
proof (intro conjI impI)
  assume "CHR ''|'' \<notin> set (doc_header d)"
  then show "process_doc en cmap rm chm now st d = Inr st" by (rule process_doc_skip)
next
  assume "CHR ''|'' \<notin> set (doc_header d)"
  then show "generate_summary (doc_header d) = py_strip (doc_header d)"
    by (simp add: generate_summary_def)
next
  assume a: "build_sections_database en cmap chm now docs = Inr st' \<and> sections_db st' k = Some sd"
  with build_sections_inv[of en cmap chm now docs st'] obtain d' where
    "CHR ''|'' \<in> set (doc_header d')" "stored_ok en cmap (build_reverse_map cmap) d' k sd"
    by (auto simp: sections_inv_def)
  then show "CHR ''|'' \<in> set (header sd)" by (simp add: stored_ok_def)
qed

lemma build_without_pipe:
  "build_sections_database (Some example_enricher) [] [] ''2025-01-01T00:00:00'' [doc_without_pipe]
     = Inr empty_state"
  by (simp add: build_sections_database_def process_doc_def doc_without_pipe_def empty_state_def)

lemma build_meetings:
  "build_sections_database None [] [] ''2025-01-01T00:00:00'' [doc_meetings]
     = Inr \<lparr>sections_data = [''101.15'' \<mapsto> section_record [] [] [] ''2025-01-01T00:00:00'' doc_meetings ''101.15'' ''Meetings.''],
            sections_db = [''101.15'' \<mapsto> section_record [] [] [] ''2025-01-01T00:00:00'' doc_meetings ''101.15'' ''Meetings.''],
            sections_count = 1\<rparr>"
  by (simp add: build_sections_database_def build_reverse_map_def process_doc_def doc_meetings_def
      parse_header_meetings txn_put_def Let_def)

text \<open>
  A build from the single record with header \<open>Section 101.15 Meetings.\<close> stores nothing.
\<close>

theorem header_without_pipe_counterexample:
  "CHR ''|'' \<notin> set (doc_header doc_without_pipe)
   \<and> build_sections_database (Some example_enricher) [] [] ''2025-01-01T00:00:00'' [doc_without_pipe]
       = Inr \<lparr>sections_data = Map.empty, sections_db = Map.empty, sections_count = 0\<rparr>"
  using build_without_pipe by (simp add: doc_without_pipe_def empty_state_def)

text \<open>
  The theorem at that record, and at a build from a record whose header has a pipe.
\<close>

theorem header_without_pipe_is_skipped_witness:
  "CHR ''|'' \<notin> set (doc_header doc_without_pipe)
   \<and> process_doc None [] [] [] ''2025-01-01T00:00:00'' empty_state doc_without_pipe = Inr empty_state
   \<and> generate_summary (doc_header doc_without_pipe) = py_strip (doc_header doc_without_pipe)
   \<and> build_sections_database None [] [] ''2025-01-01T00:00:00'' [doc_meetings]
       = Inr \<lparr>sections_data = [''101.15'' \<mapsto> section_record [] [] [] ''2025-01-01T00:00:00'' doc_meetings ''101.15'' ''Meetings.''],
              sections_db = [''101.15'' \<mapsto> section_record [] [] [] ''2025-01-01T00:00:00'' doc_meetings ''101.15'' ''Meetings.''],
              sections_count = 1\<rparr>
   \<and> CHR ''|'' \<in> set (header (section_record [] [] [] ''2025-01-01T00:00:00'' doc_meetings ''101.15'' ''Meetings.''))"
proof -
  have h1: "CHR ''|'' \<notin> set (doc_header doc_without_pipe)" by (simp add: doc_without_pipe_def)
  have h2: "sections_db \<lparr>sections_data = [''101.15'' \<mapsto> section_record [] [] [] ''2025-01-01T00:00:00'' doc_meetings ''101.15'' ''Meetings.''],
              sections_db = [''101.15'' \<mapsto> section_record [] [] [] ''2025-01-01T00:00:00'' doc_meetings ''101.15'' ''Meetings.''],
              sections_count = 1\<rparr> ''101.15''
        = Some (section_record [] [] [] ''2025-01-01T00:00:00'' doc_meetings ''101.15'' ''Meetings.'')"
    by simp
  from header_without_pipe_is_skipped[where d = doc_without_pipe and en = None and cmap = "[]" and rm = "[]"
      and chm = "[]" and now = "''2025-01-01T00:00:00''" and st = empty_state and docs = "[doc_meetings]"
      and k = "''101.15''"
      and sd = "section_record [] [] [] ''2025-01-01T00:00:00'' doc_meetings ''101.15'' ''Meetings.''"
      and st' = "\<lparr>sections_data = [''101.15'' \<mapsto> section_record [] [] [] ''2025-01-01T00:00:00'' doc_meetings ''101.15'' ''Meetings.''],
              sections_db = [''101.15'' \<mapsto> section_record [] [] [] ''2025-01-01T00:00:00'' doc_meetings ''101.15'' ''Meetings.''],
              sections_count = 1\<rparr>"]
    h1 h2 build_meetings
  show ?thesis by blast
qed

lemma complexity_empty: "calculate_complexity 0 0 c = 4 + spec_citation_adjust c"
  by (simp add: complexity_as_sum spec_word_adjust_def spec_paragraph_adjust_def spec_citation_adjust_def)

text \<open>
  Claim C6, as the code has it. When a record with a pipe in its header and an empty
  paragraphs array is processed with the enricher enabled, the section is stored with
  \<^verbatim>\<open>word_count = 0\<close> and its complexity is 4 plus the citation adjustment (3 without
  forward citations, at most 6), never the minimum 1 of the scale.
\<close>

theorem empty_paragraphs_complexity:
  assumes "CHR ''|'' \<in> set (doc_header d)" and "doc_paragraphs d = []"
    and "process_doc (Some e) cmap rm chm now st d = Inr st'"
  shows "\<exists>k sd. sections_db st' k = Some sd \<and> header sd = doc_header d \<and> paragraphs sd = []
           \<and> word_count sd = 0
           \<and> map_option complexity (enrichment sd) = Some (4 + spec_citation_adjust (citation_count sd))
           \<and> map_option complexity (enrichment sd) \<noteq> Some 1"
proof -
  from process_doc_store[OF assms(1,3)] obtain k sd where
    db: "sections_db st' = (sections_db st)(k \<mapsto> sd)"
    and ok: "stored_ok (Some e) cmap rm d k sd" by blast
  from ok have c: "map_option complexity (enrichment sd)
             = Some (calculate_complexity (word_count sd) (paragraph_count sd) (citation_count sd))"
    by (auto simp: stored_ok_def)
  from ok assms(2) have w: "word_count sd = 0" and p: "paragraph_count sd = 0"
    and h: "header sd = doc_header d" and ps: "paragraphs sd = []"
    unfolding stored_ok_def by simp_all
  from c w p have c': "map_option complexity (enrichment sd) = Some (4 + spec_citation_adjust (citation_count sd))"
    by (simp add: complexity_empty)
  have ne: "4 + spec_citation_adjust (citation_count sd) \<noteq> 1"
    by (simp add: spec_citation_adjust_def)
  have "map_option complexity (enrichment sd) \<noteq> Some 1"
  proof
    assume "map_option complexity (enrichment sd) = Some 1"
    with c' have "Some (4 + spec_citation_adjust (citation_count sd)) = Some (1::int)" by (rule trans[OF sym])
    with ne show False by (simp only: option.inject)
  qed
  with db h ps w c' show ?thesis by auto
qed

lemma process_empty_paragraphs:
  "process_doc (Some example_enricher) [] [] [] ''2025-01-01T00:00:00'' empty_state doc_empty_paragraphs
   = Inr \<lparr>sections_data = [''101.15'' \<mapsto> enrich_section example_enricher
                (section_record [] [] [] ''2025-01-01T00:00:00'' doc_empty_paragraphs ''101.15'' ''Meetings.'') 0],
          sections_db = [''101.15'' \<mapsto> enrich_section example_enricher
                (section_record [] [] [] ''2025-01-01T00:00:00'' doc_empty_paragraphs ''101.15'' ''Meetings.'') 0],
          sections_count = 1\<rparr>"
  by (simp add: process_doc_def doc_empty_paragraphs_def parse_header_meetings txn_put_def empty_state_def Let_def)

text \<open>
  The record \<open>Section 101.15|Meetings.\<close> with no paragraphs and no citations is stored
  with word count 0 and complexity 3.
\<close>

theorem empty_paragraphs_counterexample:
  "map_option word_count
     (sections_after (process_doc (Some example_enricher) [] [] [] ''2025-01-01T00:00:00''
        empty_state doc_empty_paragraphs) ''101.15'') = Some 0
   \<and> map_option (\<lambda>sd. map_option complexity (enrichment sd))
     (sections_after (process_doc (Some example_enricher) [] [] [] ''2025-01-01T00:00:00''
        empty_state doc_empty_paragraphs) ''101.15'') = Some (Some 3)"
  unfolding process_empty_paragraphs
  by (simp add: sections_after_def enrich_section_def section_record_def Let_def
      doc_empty_paragraphs_def complexity_empty spec_citation_adjust_def)

text \<open>
  The theorem at that record.
\<close>

theorem empty_paragraphs_complexity_witness:
  "CHR ''|'' \<in> set (doc_header doc_empty_paragraphs) \<and> doc_paragraphs doc_empty_paragraphs = []
   \<and> (\<exists>k sd. sections_db \<lparr>sections_data = [''101.15'' \<mapsto> enrich_section example_enricher
                (section_record [] [] [] ''2025-01-01T00:00:00'' doc_empty_paragraphs ''101.15'' ''Meetings.'') 0],
          sections_db = [''101.15'' \<mapsto> enrich_section example_enricher
                (section_record [] [] [] ''2025-01-01T00:00:00'' doc_empty_paragraphs ''101.15'' ''Meetings.'') 0],
          sections_count = 1\<rparr> k = Some sd \<and> header sd = doc_header doc_empty_paragraphs
        \<and> paragraphs sd = [] \<and> word_count sd = 0
        \<and> map_option complexity (enrichment sd) = Some (4 + spec_citation_adjust (citation_count sd))
        \<and> map_option complexity (enrichment sd) \<noteq> Some 1)"
proof -
  have h1: "CHR ''|'' \<in> set (doc_header doc_empty_paragraphs)" by (simp add: doc_empty_paragraphs_def)
  have h2: "doc_paragraphs doc_empty_paragraphs = []" by (simp add: doc_empty_paragraphs_def)
  from empty_paragraphs_complexity[OF h1 h2 process_empty_paragraphs] h1 h2
  show ?thesis by blast
qed

subsection \<open>Complexity of the sections\<close>

lemma enrich_section_complexity:
  "map_option complexity (enrichment (enrich_section en sd c))
     = Some (calculate_complexity (word_count sd) (paragraph_count sd) c)"
  by (simp add: enrich_section_def Let_def)

lemma stored_complexity:
  assumes "build_sections_database (Some en) cmap chm now docs = Inr st"
    and "sections_db st k = Some s"
  shows "\<exists>e. enrichment s = Some e
           \<and> complexity e = spec_complexity (word_count s) (paragraph_count s) (citation_count s)
           \<and> word_count s = (\<Sum>p\<leftarrow>paragraphs s. int (length (py_split_ws p)))
           \<and> paragraph_count s = int (length (paragraphs s))
           \<and> citation_count s = int (length (case map_of cmap k of None \<Rightarrow> [] | Some refs \<Rightarrow> refs))"
proof -
  from build_sections_inv[OF assms(1)] assms(2) obtain d where
    ok: "stored_ok (Some en) cmap (build_reverse_map cmap) d k s"
    unfolding sections_inv_def by blast
  from ok have c: "map_option complexity (enrichment s)
      = Some (calculate_complexity (word_count s) (paragraph_count s) (citation_count s))"
    and w: "word_count s = (\<Sum>p\<leftarrow>paragraphs s. int (length (py_split_ws p)))"
    and p: "paragraph_count s = int (length (paragraphs s))"
    and cc: "citation_count s = int (length (case map_of cmap k of None \<Rightarrow> [] | Some refs \<Rightarrow> refs))"
    unfolding stored_ok_def by (simp_all only: option.case)
  from c obtain e where e: "enrichment s = Some e"
    and ce: "complexity e = calculate_complexity (word_count s) (paragraph_count s) (citation_count s)"
    by (cases "enrichment s") auto
  from e ce w p cc show ?thesis by (simp add: complexity_is_spec)
qed

text \<open>
  Claim C5. The complexity score of the enricher equals the specified formula (start at
  5; word-count, paragraph-count and citation-count adjustments; clamp into the scale from
  1 to 10) and lies between 1 and 10. The enrichment that \<^verbatim>\<open>enrich_section\<close> attaches to a
  section holds that score for the section's word count and paragraph count and the
  citation count passed in. Every section that a build with enrichment stores has an
  enrichment whose complexity is the formula at the section's word count (the words of its
  paragraphs), its paragraph count and its forward citation count (the number of
  references the citation map gives for its id), hence between 1 and 10.
\<close>

theorem complexity_matches_formula:
  "calculate_complexity w p c = spec_complexity w p c
   \<and> 1 \<le> calculate_complexity w p c \<and> calculate_complexity w p c \<le> 10
   \<and> map_option complexity (enrichment (enrich_section en sd c))
       = Some (spec_complexity (word_count sd) (paragraph_count sd) c)
   \<and> (build_sections_database (Some en) cmap chm now docs = Inr st \<and> sections_db st k = Some s
      \<longrightarrow> (\<exists>e. enrichment s = Some e
             \<and> complexity e = spec_complexity (word_count s) (paragraph_count s) (citation_count s)
             \<and> word_count s = (\<Sum>p\<leftarrow>paragraphs s. int (length (py_split_ws p)))
             \<and> paragraph_count s = int (length (paragraphs s))
             \<and> citation_count s = int (length (case map_of cmap k of None \<Rightarrow> [] | Some refs \<Rightarrow> refs))
             \<and> 1 \<le> complexity e \<and> complexity e \<le> 10))"
proof (intro conjI impI)
  show "calculate_complexity w p c = spec_complexity w p c" by (rule complexity_is_spec)
  show "1 \<le> calculate_complexity w p c" "calculate_complexity w p c \<le> 10"
    using spec_complexity_bounds[of w p c] by (simp_all add: complexity_is_spec)
  show "map_option complexity (enrichment (enrich_section en sd c))
       = Some (spec_complexity (word_count sd) (paragraph_count sd) c)"
    by (simp add: enrich_section_complexity complexity_is_spec)
next
  assume "build_sections_database (Some en) cmap chm now docs = Inr st \<and> sections_db st k = Some s"
  then have b: "build_sections_database (Some en) cmap chm now docs = Inr st"
    and l: "sections_db st k = Some s" by simp_all
  from stored_complexity[OF b l] spec_complexity_bounds
  show "\<exists>e. enrichment s = Some e
             \<and> complexity e = spec_complexity (word_count s) (paragraph_count s) (citation_count s)
             \<and> word_count s = (\<Sum>p\<leftarrow>paragraphs s. int (length (py_split_ws p)))
             \<and> paragraph_count s = int (length (paragraphs s))
             \<and> citation_count s = int (length (case map_of cmap k of None \<Rightarrow> [] | Some refs \<Rightarrow> refs))
             \<and> 1 \<le> complexity e \<and> complexity e \<le> 10"
    by metis
qed

text \<open>
  The theorem at the build from the record \<open>Section 101.15|Meetings.\<close> with one paragraph
  of four words and no citation: the stored section has complexity 3.
\<close>

lemma build_meetings_enriched:
  "build_sections_database (Some example_enricher) [] [] ''2025-01-01T00:00:00'' [doc_meetings]
     = Inr \<lparr>sections_data = [''101.15'' \<mapsto> enrich_section example_enricher
                (section_record [] [] [] ''2025-01-01T00:00:00'' doc_meetings ''101.15'' ''Meetings.'') 0],
            sections_db = [''101.15'' \<mapsto> enrich_section example_enricher
                (section_record [] [] [] ''2025-01-01T00:00:00'' doc_meetings ''101.15'' ''Meetings.'') 0],
            sections_count = 1\<rparr>"
  by (simp add: build_sections_database_def build_reverse_map_def process_doc_def doc_meetings_def
      parse_header_meetings txn_put_def Let_def)

lemma meetings_complexity:
  "map_option complexity (enrichment (enrich_section example_enricher
      (section_record [] [] [] ''2025-01-01T00:00:00'' doc_meetings ''101.15'' ''Meetings.'') 0)) = Some 3"
  by (simp add: enrich_section_def section_record_def Let_def doc_meetings_def
      py_split_ws_def py_isspace_def complexity_as_sum spec_word_adjust_def spec_paragraph_adjust_def
      spec_citation_adjust_def)

theorem complexity_matches_formula_witness:
  "build_sections_database (Some example_enricher) [] [] ''2025-01-01T00:00:00'' [doc_meetings]
     = Inr \<lparr>sections_data = [''101.15'' \<mapsto> enrich_section example_enricher
                (section_record [] [] [] ''2025-01-01T00:00:00'' doc_meetings ''101.15'' ''Meetings.'') 0],
            sections_db = [''101.15'' \<mapsto> enrich_section example_enricher
                (section_record [] [] [] ''2025-01-01T00:00:00'' doc_meetings ''101.15'' ''Meetings.'') 0],
            sections_count = 1\<rparr>
   \<and> map_option complexity (enrichment (enrich_section example_enricher
        (section_record [] [] [] ''2025-01-01T00:00:00'' doc_meetings ''101.15'' ''Meetings.'') 0)) = Some 3
   \<and> (\<exists>e. enrichment (enrich_section example_enricher
               (section_record [] [] [] ''2025-01-01T00:00:00'' doc_meetings ''101.15'' ''Meetings.'') 0) = Some e
          \<and> complexity e = spec_complexity
               (word_count (enrich_section example_enricher
                  (section_record [] [] [] ''2025-01-01T00:00:00'' doc_meetings ''101.15'' ''Meetings.'') 0))
               (paragraph_count (enrich_section example_enricher
                  (section_record [] [] [] ''2025-01-01T00:00:00'' doc_meetings ''101.15'' ''Meetings.'') 0))
               (citation_count (enrich_section example_enricher
                  (section_record [] [] [] ''2025-01-01T00:00:00'' doc_meetings ''101.15'' ''Meetings.'') 0))
          \<and> 1 \<le> complexity e \<and> complexity e \<le> 10)"
proof -
  let ?s = "enrich_section example_enricher
      (section_record [] [] [] ''2025-01-01T00:00:00'' doc_meetings ''101.15'' ''Meetings.'') 0"
  let ?st = "\<lparr>sections_data = [''101.15'' \<mapsto> ?s], sections_db = [''101.15'' \<mapsto> ?s],
              sections_count = 1\<rparr>"
  have l: "sections_db ?st ''101.15'' = Some ?s" by simp
  from complexity_matches_formula [of 0 0 0 example_enricher ?s "[]" "[]" "''2025-01-01T00:00:00''"
      "[doc_meetings]" ?st "''101.15''" ?s] build_meetings_enriched l meetings_complexity
  show ?thesis by blast
qed

subsection \<open>Dangling references\<close>

lemma reference_detail_of_section [simp]: "rd_section (reference_detail_of secs em r) = r"
  by (simp add: reference_detail_of_def split: option.splits)

lemma reference_detail_of_dangling:
  "secs r = None \<Longrightarrow>
   rd_title (reference_detail_of secs em r) = [] \<and> rd_url (reference_detail_of secs em r) = []
   \<and> rd_url_hash (reference_detail_of secs em r) = []"
  by (simp add: reference_detail_of_def split: option.splits)

lemma found_sections:
  "map fst (concat (map (\<lambda>rd. case secs (rd_section rd) of
                               Some x \<Rightarrow> [(rd_section rd, x)] | None \<Rightarrow> []) rds))
     = filter (\<lambda>r. secs r \<noteq> None) (map rd_section rds)"
  by (induction rds) (auto split: option.splits)

lemma direct_sections_comp:
  "map (ci_section \<circ> (\<lambda>(ref, ref_section).
        \<lparr>ci_section = ref, ci_title = section_title ref_section, ci_url = url ref_section,
         ci_url_hash = url_hash ref_section, ci_full_text = full_text ref_section,
         ci_word_count = word_count ref_section\<rparr>)) found = map fst found"
  by (induction found) auto

lemma complete_context_direct:
  assumes "st_sections s src = Some sec"
  shows "\<exists>b. get_complete_context s src ic ir dp = Some b
     \<and> map ci_section (cb_direct_citations b)
        = (case st_citations s src of None \<Rightarrow> []
           | Some cd \<Rightarrow> filter (\<lambda>r. st_sections s r \<noteq> None) (map rd_section (references_details cd)))"
  using assms
  by (cases "st_citations s src")
     (simp_all add: get_complete_context_def get_section_def get_citations_def Let_def
        direct_sections_comp found_sections)

text \<open>
  Claim C9, as the code has it. For a citation whose target is not in the primary
  table, the citations entry of the citing section keeps the target among its
  \<^verbatim>\<open>direct_references\<close>, with a details row whose title, url and hash are empty;
  \<^verbatim>\<open>get_complete_context\<close> of the citing section returns a bundle without an error, and
  its direct citations are exactly the references found in the primary table, so the
  dangling target is not among them.
\<close>

theorem dangling_reference_kept_not_listed:
  assumes "distinct (map fst cmap)"
    and "build_all en cmap ctx chain_lines now docs = Inr s"
    and "map_of cmap src = Some refs" and "t \<in> set refs"
    and "st_sections s src = Some sec" and "st_sections s t = None"
  shows "\<exists>cd b. get_citations s src = Some cd \<and> t \<in> set (direct_references cd)
           \<and> (\<exists>rd \<in> set (references_details cd). rd_section rd = t)
           \<and> (\<forall>rd \<in> set (references_details cd). rd_section rd = t \<longrightarrow>
                  rd_title rd = [] \<and> rd_url rd = [] \<and> rd_url_hash rd = [])
           \<and> get_complete_context s src include_chain include_reverse max_chain_depth = Some b
           \<and> t \<notin> set (map ci_section (cb_direct_citations b))
           \<and> map ci_section (cb_direct_citations b) = filter (\<lambda>r. st_sections s r \<noteq> None) refs"
proof -
  from assms(2) obtain st where
    b: "build_sections_database en cmap (load_chains chain_lines) now docs = Inr st"
    and e: "st_sections s = sections_db st"
    and c: "build_citations_database (sections_data st) ctx cmap = Inr (st_citations s)"
    by (rule build_all_parts)
  from build_sections_inv[OF b] have "sections_data st = sections_db st" by (simp add: sections_inv_def)
  with e have secs: "sections_data st = st_sections s" by simp
  let ?em = "enhanced_map_of (case ctx src of None \<Rightarrow> [] | Some cs \<Rightarrow> cs)"
  let ?cd = "citation_data_of (st_sections s) ctx src refs"
  have cd: "st_citations s src = Some ?cd"
    using put_citations_lookup[OF c[unfolded build_citations_database_def] assms(1), of src] assms(3) secs
    by simp
  have det: "references_details ?cd = map (reference_detail_of (st_sections s) ?em) refs"
    and dir: "direct_references ?cd = refs"
    by (simp_all add: citation_data_of_def Let_def)
  from complete_context_direct[OF assms(5), of include_chain include_reverse max_chain_depth] cd
  obtain b where gb: "get_complete_context s src include_chain include_reverse max_chain_depth = Some b"
    and im: "map ci_section (cb_direct_citations b)
        = filter (\<lambda>r. st_sections s r \<noteq> None) (map rd_section (references_details ?cd))"
    by auto
  have rs: "map rd_section (references_details ?cd) = refs"
    unfolding det by (induction refs) simp_all
  have im': "map ci_section (cb_direct_citations b) = filter (\<lambda>r. st_sections s r \<noteq> None) refs"
    using im rs by simp
  have ex: "\<exists>rd \<in> set (references_details ?cd). rd_section rd = t"
    unfolding det using assms(4) by auto
  have emp: "\<forall>rd \<in> set (references_details ?cd). rd_section rd = t \<longrightarrow>
                  rd_title rd = [] \<and> rd_url rd = [] \<and> rd_url_hash rd = []"
    unfolding det using reference_detail_of_dangling[of "st_sections s" t ?em, OF assms(6)] by auto
  have nl: "t \<notin> set (map ci_section (cb_direct_citations b))"
    unfolding im' using assms(6) by simp
  have gc: "get_citations s src = Some ?cd" using cd by (simp add: get_citations_def)
  have td: "t \<in> set (direct_references ?cd)" using dir assms(4) by simp
  from gc td ex emp gb nl im' show ?thesis by blast
qed

lemma parse_header_murder:
  "parse_header ''Section 2903.01|Aggravated Murder.'' = Inr (''2903.01'', ''Aggravated Murder.'')"
  by (simp add: parse_header_def py_split_on_def py_strip_def py_isspace_def starts_with_def)

lemma build_dangling_eq:
  "build_dangling =
     Inr \<lparr>st_sections = [''2903.01'' \<mapsto> section_record [(''2903.01'', [''9999.99''])] [(''9999.99'', {''2903.01''})] []
                ''2025-01-01T00:00:00'' doc_murder ''2903.01'' ''Aggravated Murder.''],
          st_citations = [''2903.01'' \<mapsto> citation_data_of
              [''2903.01'' \<mapsto> section_record [(''2903.01'', [''9999.99''])] [(''9999.99'', {''2903.01''})] []
                ''2025-01-01T00:00:00'' doc_murder ''2903.01'' ''Aggravated Murder.'']
              Map.empty ''2903.01'' [''9999.99'']],
          st_reverse = [''9999.99'' \<mapsto> reverse_data_of
              [''2903.01'' \<mapsto> section_record [(''2903.01'', [''9999.99''])] [(''9999.99'', {''2903.01''})] []
                ''2025-01-01T00:00:00'' doc_murder ''2903.01'' ''Aggravated Murder.'']
              ''9999.99'' {''2903.01''}],
          st_chains = Map.empty\<rparr>"
  by (simp add: build_dangling_def build_all_def build_sections_database_def build_reverse_map_def add_citing_def
      process_doc_def doc_murder_def parse_header_murder txn_put_def load_chains_def
      build_citations_database_def build_reverse_citations_database_def build_chains_database_def Let_def)

text \<open>
  Section 2903.01 cites 9999.99, which no record defines: the details row is there, and
  the bundle of 2903.01 has no direct citation and no source besides 2903.01 itself.
\<close>

theorem dangling_reference_counterexample:
  "map_option (\<lambda>cd. map rd_section (references_details cd))
      (get_citations (store_after build_dangling) ''2903.01'') = Some [''9999.99'']
   \<and> map_option cb_direct_citations
      (get_complete_context (store_after build_dangling) ''2903.01'' True True 5) = Some []
   \<and> map_option (\<lambda>b. map so_section (cb_sources b))
      (get_complete_context (store_after build_dangling) ''2903.01'' True True 5) = Some [''2903.01'']"
  unfolding build_dangling_eq
  by (simp add: store_after_def get_citations_def get_complete_context_def get_section_def
      get_reverse_citations_def get_chain_def citation_data_of_def Let_def)

text \<open>
  The theorem on that build.
\<close>

theorem dangling_reference_kept_not_listed_witness:
  "distinct (map fst [(''2903.01'', [''9999.99''])])
   \<and> build_all None [(''2903.01'', [''9999.99''])] Map.empty [] ''2025-01-01T00:00:00'' [doc_murder]
       = Inr (store_after build_dangling)
   \<and> map_of [(''2903.01'', [''9999.99''])] ''2903.01'' = Some [''9999.99'']
   \<and> ''9999.99'' \<in> set [''9999.99'']
   \<and> st_sections (store_after build_dangling) ''2903.01''
       = Some (section_record [(''2903.01'', [''9999.99''])] [(''9999.99'', {''2903.01''})] []
                ''2025-01-01T00:00:00'' doc_murder ''2903.01'' ''Aggravated Murder.'')
   \<and> st_sections (store_after build_dangling) ''9999.99'' = None
   \<and> (\<exists>cd b. get_citations (store_after build_dangling) ''2903.01'' = Some cd
         \<and> ''9999.99'' \<in> set (direct_references cd)
         \<and> (\<exists>rd \<in> set (references_details cd). rd_section rd = ''9999.99'')
         \<and> (\<forall>rd \<in> set (references_details cd). rd_section rd = ''9999.99'' \<longrightarrow>
                rd_title rd = [] \<and> rd_url rd = [] \<and> rd_url_hash rd = [])
         \<and> get_complete_context (store_after build_dangling) ''2903.01'' True True 5 = Some b
         \<and> ''9999.99'' \<notin> set (map ci_section (cb_direct_citations b))
         \<and> map ci_section (cb_direct_citations b)
             = filter (\<lambda>r. st_sections (store_after build_dangling) r \<noteq> None) [''9999.99''])"
proof -
  have h1: "distinct (map fst [(''2903.01'', [''9999.99''])])" by simp
  have h2: "build_all None [(''2903.01'', [''9999.99''])] Map.empty [] ''2025-01-01T00:00:00'' [doc_murder]
       = Inr (store_after build_dangling)"
    unfolding build_dangling_eq
    by (simp add: store_after_def build_dangling_eq[unfolded build_dangling_def])
  have h3: "map_of [(''2903.01'', [''9999.99''])] ''2903.01'' = Some [''9999.99'']" by simp
  have h4: "''9999.99'' \<in> set [''9999.99'']" by simp
  have h5: "st_sections (store_after build_dangling) ''2903.01''
       = Some (section_record [(''2903.01'', [''9999.99''])] [(''9999.99'', {''2903.01''})] []
                ''2025-01-01T00:00:00'' doc_murder ''2903.01'' ''Aggravated Murder.'')"
    unfolding build_dangling_eq by (simp add: store_after_def)
  have h6: "st_sections (store_after build_dangling) ''9999.99'' = None"
    unfolding build_dangling_eq by (simp add: store_after_def)
  from dangling_reference_kept_not_listed[OF h1 h2 h3 h4 h5 h6, of True True 5] h1 h2 h3 h4 h5 h6
  show ?thesis by blast
qed

subsection \<open>Chain records\<close>

lemma str_zero: "py_str_int 0 = ''0''"
  by code_simp

lemma analyze_cmap_chain:
  assumes "set_order {''101.16''} = [''101.16'']" "set_order {''101.17''} = [''101.17'']"
    "set_order {''101.18''} = [''101.18'']" "set_order {} = []"
  shows "analyze_complex_chains set_order cmap_chain_sets = [[''101.15'', ''101.16'', ''101.17'', ''101.18'']]"
  using assms by (simp add: analyze_complex_chains_def cmap_chain_sets_def build_reference_chain_def)

lemma save_cmap_chain:
  assumes "set_order {''101.16''} = [''101.16'']" "set_order {''101.17''} = [''101.17'']"
    "set_order {''101.18''} = [''101.18'']" "set_order {} = []"
  shows "save_results ''2025-01-01T00:00:00'' (analyze_complex_chains set_order cmap_chain_sets) = Inr [chain_line_0]"
  unfolding analyze_cmap_chain [OF assms] by (simp add: save_results_def chain_line_0_def str_zero)

lemma serializable_cmap_chain:
  assumes "set_order {''101.16''} = [''101.16'']" "set_order {''101.17''} = [''101.17'']"
    "set_order {''101.18''} = [''101.18'']" "set_order {} = []"
  shows "serializable_map set_order cmap_chain_sets = cmap_chain"
  using assms by (simp add: serializable_map_def cmap_chain_sets_def cmap_chain_def)

lemma build_chain_store_eq:
  "build_chain_store =
     Inr \<lparr>st_sections = Map.empty,
          st_citations = [''101.15'' \<mapsto> citation_data_of Map.empty Map.empty ''101.15'' [''101.16''],
                          ''101.16'' \<mapsto> citation_data_of Map.empty Map.empty ''101.16'' [''101.17''],
                          ''101.17'' \<mapsto> citation_data_of Map.empty Map.empty ''101.17'' [''101.18''],
                          ''101.18'' \<mapsto> citation_data_of Map.empty Map.empty ''101.18'' []],
          st_reverse = [''101.16'' \<mapsto> reverse_data_of Map.empty ''101.16'' {''101.15''},
                        ''101.17'' \<mapsto> reverse_data_of Map.empty ''101.17'' {''101.16''},
                        ''101.18'' \<mapsto> reverse_data_of Map.empty ''101.18'' {''101.17''}],
          st_chains = [''complex_0'' \<mapsto> citation_chain_of Map.empty ''complex_0'' chain_line_0]\<rparr>"
  by (simp add: build_chain_store_def build_all_def build_sections_database_def build_reverse_map_def
      add_citing_def cmap_chain_def txn_put_def load_chains_def chain_line_0_def
      build_citations_database_def build_reverse_citations_database_def build_chains_database_def Let_def)

text \<open>
  Claim C1, evaluated on the code. The citation map in which 101.15 starts a chain of
  four sections has sets of at most one reference, which can be listed in one way only.
  It yields one chain record, written with \<^verbatim>\<open>chain_id = complex_0\<close> while its primary
  section is 101.15, and the JSON citation map that the builder loads; the chains table
  is keyed by that \<^verbatim>\<open>chain_id\<close>, so \<^verbatim>\<open>get_chain\<close> finds nothing under 101.15 and finds
  the chain under \<open>complex_0\<close>.
\<close>

theorem chain_id_is_not_section_id:
  "(set_order {''101.16''} = [''101.16''] \<and> set_order {''101.17''} = [''101.17'']
      \<and> set_order {''101.18''} = [''101.18''] \<and> set_order {} = []
    \<longrightarrow> save_results ''2025-01-01T00:00:00'' (analyze_complex_chains set_order cmap_chain_sets)
          = Inr [chain_line_0]
        \<and> serializable_map set_order cmap_chain_sets = cmap_chain)
   \<and> chain_id chain_line_0 = ''complex_0'' \<and> primary_section chain_line_0 = ''101.15''
   \<and> get_chain (store_after build_chain_store) ''101.15'' = None
   \<and> map_option ch_primary_section (get_chain (store_after build_chain_store) ''complex_0'') = Some ''101.15''
   \<and> map_option ch_chain_id (get_chain (store_after build_chain_store) ''complex_0'') = Some ''complex_0''"
proof (intro conjI impI)
  assume so: "set_order {''101.16''} = [''101.16''] \<and> set_order {''101.17''} = [''101.17'']
      \<and> set_order {''101.18''} = [''101.18''] \<and> set_order {} = []"
  from so show "save_results ''2025-01-01T00:00:00'' (analyze_complex_chains set_order cmap_chain_sets)
          = Inr [chain_line_0]"
    by (intro save_cmap_chain) simp_all
  from so show "serializable_map set_order cmap_chain_sets = cmap_chain"
    by (intro serializable_cmap_chain) simp_all
qed (simp_all add: build_chain_store_eq store_after_def get_chain_def citation_chain_of_def chain_line_0_def)

text \<open>
  The theorem for the listing order that follows 101.15, 101.16, 101.17, 101.18.
\<close>

lemma order_cmap_chain:
  "order_by [''101.15'', ''101.16'', ''101.17'', ''101.18''] {''101.16''} = [''101.16'']"
  "order_by [''101.15'', ''101.16'', ''101.17'', ''101.18''] {''101.17''} = [''101.17'']"
  "order_by [''101.15'', ''101.16'', ''101.17'', ''101.18''] {''101.18''} = [''101.18'']"
  "order_by [''101.15'', ''101.16'', ''101.17'', ''101.18''] {} = []"
  by (simp_all add: order_by_def)

theorem chain_id_is_not_section_id_witness:
  "order_by [''101.15'', ''101.16'', ''101.17'', ''101.18''] {''101.16''} = [''101.16'']
   \<and> order_by [''101.15'', ''101.16'', ''101.17'', ''101.18''] {''101.17''} = [''101.17'']
   \<and> order_by [''101.15'', ''101.16'', ''101.17'', ''101.18''] {''101.18''} = [''101.18'']
   \<and> order_by [''101.15'', ''101.16'', ''101.17'', ''101.18''] {} = []
   \<and> save_results ''2025-01-01T00:00:00''
        (analyze_complex_chains (order_by [''101.15'', ''101.16'', ''101.17'', ''101.18'']) cmap_chain_sets)
      = Inr [chain_line_0]
   \<and> serializable_map (order_by [''101.15'', ''101.16'', ''101.17'', ''101.18'']) cmap_chain_sets = cmap_chain
   \<and> chain_id chain_line_0 = ''complex_0'' \<and> primary_section chain_line_0 = ''101.15''
   \<and> get_chain (store_after build_chain_store) ''101.15'' = None
   \<and> map_option ch_primary_section (get_chain (store_after build_chain_store) ''complex_0'') = Some ''101.15''
   \<and> map_option ch_chain_id (get_chain (store_after build_chain_store) ''complex_0'') = Some ''complex_0''"
  using chain_id_is_not_section_id [of "order_by [''101.15'', ''101.16'', ''101.17'', ''101.18'']"]
    order_cmap_chain
  by blast

subsection \<open>Range expansion\<close>

text \<open>
  Rounding to a double is evaluated from a certificate: the exponent and the rounded
  significand of the exact value are checked by arithmetic on numerals.
\<close>

lemma floor_rat_numeral [simp]: "\<lfloor>(numeral a / numeral b :: rat)\<rfloor> = numeral a div numeral b"
  by (metis floor_divide_of_int_eq of_int_numeral)

lemma ceiling_rat_numeral [simp]: "\<lceil>(numeral a / numeral b :: rat)\<rceil> = - (- numeral a div numeral b)"
  by (metis ceiling_divide_eq_div of_int_numeral)

lemma round_to_double_pos:
  assumes "0 < q" and "floor_log2 q = e" and "- 1022 \<le> e"
    and "round_half_even (q / pow2 (e - 52)) = m"
    and "of_int m * pow2 (e - 52) < pow2 1024"
  shows "round_to_double q = Finite (of_int m * pow2 (e - 52))"
proof -
  have q0: "q \<noteq> 0" and qa: "\<bar>q\<bar> = q" using assms(1) by simp_all
  have mx: "max (floor_log2 q) (- 1022) = e" using assms(2,3) by simp
  have nl: "\<not> pow2 1024 \<le> of_int m * pow2 (e - 52)" using assms(5) by simp
  show ?thesis
    unfolding round_to_double_def Let_def qa mx assms(4)
    using q0 nl assms(1) by simp
qed

lemma round_start: "round_to_double (12399 / 100) = Finite (8725020590588559 / 70368744177664)"
proof -
  have e: "floor_log2 (12399 / 100) = 6" by (simp add: floor_log2_def bit_length.simps)
  have p: "pow2 (6 - 52) = 1 / 2 ^ 46" by (simp add: pow2_def)
  have m: "round_half_even (12399 / 100 / pow2 (6 - 52)) = 8725020590588559"
    unfolding p by (simp add: round_half_even_def Let_def)
  have lt: "of_int 8725020590588559 * pow2 (6 - 52) < pow2 1024"
    unfolding p by (simp add: pow2_def)
  have "round_to_double (12399 / 100) = Finite (of_int 8725020590588559 * pow2 (6 - 52))"
    by (rule round_to_double_pos[OF _ e _ m lt]) simp_all
  then show ?thesis unfolding p by simp
qed

lemma round_end: "round_to_double (124) = Finite (124)"
proof -
  have e: "floor_log2 (124) = 6" by (simp add: floor_log2_def bit_length.simps)
  have p: "pow2 (6 - 52) = 1 / 2 ^ 46" by (simp add: pow2_def)
  have m: "round_half_even (124 / pow2 (6 - 52)) = 8725724278030336"
    unfolding p by (simp add: round_half_even_def Let_def)
  have lt: "of_int 8725724278030336 * pow2 (6 - 52) < pow2 1024"
    unfolding p by (simp add: pow2_def)
  have "round_to_double (124) = Finite (of_int 8725724278030336 * pow2 (6 - 52))"
    by (rule round_to_double_pos[OF _ e _ m lt]) simp_all
  then show ?thesis unfolding p by simp
qed

lemma round_step: "round_to_double (1 / 100) = Finite (5764607523034235 / 576460752303423488)"
proof -
  have e: "floor_log2 (1 / 100) = -7" by (simp add: floor_log2_def bit_length.simps)
  have p: "pow2 (-7 - 52) = 1 / 2 ^ 59" by (simp add: pow2_def)
  have m: "round_half_even (1 / 100 / pow2 (-7 - 52)) = 5764607523034235"
    unfolding p by (simp add: round_half_even_def Let_def)
  have lt: "of_int 5764607523034235 * pow2 (-7 - 52) < pow2 1024"
    unfolding p by (simp add: pow2_def)
  have "round_to_double (1 / 100) = Finite (of_int 5764607523034235 * pow2 (-7 - 52))"
    by (rule round_to_double_pos[OF _ e _ m lt]) simp_all
  then show ?thesis unfolding p by simp
qed

lemma round_gap: "round_to_double (703687441777 / 70368744177664) = Finite (703687441777 / 70368744177664)"
proof -
  have e: "floor_log2 (703687441777 / 70368744177664) = -7" by (simp add: floor_log2_def bit_length.simps)
  have p: "pow2 (-7 - 52) = 1 / 2 ^ 59" by (simp add: pow2_def)
  have m: "round_half_even (703687441777 / 70368744177664 / pow2 (-7 - 52)) = 5764607523037184"
    unfolding p by (simp add: round_half_even_def Let_def)
  have lt: "of_int 5764607523037184 * pow2 (-7 - 52) < pow2 1024"
    unfolding p by (simp add: pow2_def)
  have "round_to_double (703687441777 / 70368744177664) = Finite (of_int 5764607523037184 * pow2 (-7 - 52))"
    by (rule round_to_double_pos[OF _ e _ m lt]) simp_all
  then show ?thesis unfolding p by simp
qed

lemma round_first: "round_to_double (71481133285624509563 / 576460752303423488) = Finite (124)"
proof -
  have e: "floor_log2 (71481133285624509563 / 576460752303423488) = 6" by (simp add: floor_log2_def bit_length.simps)
  have p: "pow2 (6 - 52) = 1 / 2 ^ 46" by (simp add: pow2_def)
  have m: "round_half_even (71481133285624509563 / 576460752303423488 / pow2 (6 - 52)) = 8725724278030336"
    unfolding p by (simp add: round_half_even_def Let_def)
  have lt: "of_int 8725724278030336 * pow2 (6 - 52) < pow2 1024"
    unfolding p by (simp add: pow2_def)
  have "round_to_double (71481133285624509563 / 576460752303423488) = Finite (of_int 8725724278030336 * pow2 (6 - 52))"
    by (rule round_to_double_pos[OF _ e _ m lt]) simp_all
  then show ?thesis unfolding p by simp
qed

lemma round_second: "round_to_double (71486897893147546747 / 576460752303423488) = Finite (8726427965472113 / 70368744177664)"
proof -
  have e: "floor_log2 (71486897893147546747 / 576460752303423488) = 6" by (simp add: floor_log2_def bit_length.simps)
  have p: "pow2 (6 - 52) = 1 / 2 ^ 46" by (simp add: pow2_def)
  have m: "round_half_even (71486897893147546747 / 576460752303423488 / pow2 (6 - 52)) = 8726427965472113"
    unfolding p by (simp add: round_half_even_def Let_def)
  have lt: "of_int 8726427965472113 * pow2 (6 - 52) < pow2 1024"
    unfolding p by (simp add: pow2_def)
  have "round_to_double (71486897893147546747 / 576460752303423488) = Finite (of_int 8726427965472113 * pow2 (6 - 52))"
    by (rule round_to_double_pos[OF _ e _ m lt]) simp_all
  then show ?thesis unfolding p by simp
qed

lemma round_100: "round_to_double (100) = Finite (100)"
proof -
  have e: "floor_log2 (100) = 6" by (simp add: floor_log2_def bit_length.simps)
  have p: "pow2 (6 - 52) = 1 / 2 ^ 46" by (simp add: pow2_def)
  have m: "round_half_even (100 / pow2 (6 - 52)) = 7036874417766400"
    unfolding p by (simp add: round_half_even_def Let_def)
  have lt: "of_int 7036874417766400 * pow2 (6 - 52) < pow2 1024"
    unfolding p by (simp add: pow2_def)
  have "round_to_double (100) = Finite (of_int 7036874417766400 * pow2 (6 - 52))"
    by (rule round_to_double_pos[OF _ e _ m lt]) simp_all
  then show ?thesis unfolding p by simp
qed

lemma round_121: "round_to_double (121) = Finite (121)"
proof -
  have e: "floor_log2 (121) = 6" by (simp add: floor_log2_def bit_length.simps)
  have p: "pow2 (6 - 52) = 1 / 2 ^ 46" by (simp add: pow2_def)
  have m: "round_half_even (121 / pow2 (6 - 52)) = 8514618045497344"
    unfolding p by (simp add: round_half_even_def Let_def)
  have lt: "of_int 8514618045497344 * pow2 (6 - 52) < pow2 1024"
    unfolding p by (simp add: pow2_def)
  have "round_to_double (121) = Finite (of_int 8514618045497344 * pow2 (6 - 52))"
    by (rule round_to_double_pos[OF _ e _ m lt]) simp_all
  then show ?thesis unfolding p by simp
qed

lemma round_21: "round_to_double (21) = Finite (21)"
proof -
  have e: "floor_log2 (21) = 4" by (simp add: floor_log2_def bit_length.simps)
  have p: "pow2 (4 - 52) = 1 / 2 ^ 48" by (simp add: pow2_def)
  have m: "round_half_even (21 / pow2 (4 - 52)) = 5910974510923776"
    unfolding p by (simp add: round_half_even_def Let_def)
  have lt: "of_int 5910974510923776 * pow2 (4 - 52) < pow2 1024"
    unfolding p by (simp add: pow2_def)
  have "round_to_double (21) = Finite (of_int 5910974510923776 * pow2 (4 - 52))"
    by (rule round_to_double_pos[OF _ e _ m lt]) simp_all
  then show ?thesis unfolding p by simp
qed

lemma expand_done:
  "\<not> fle current end_num \<Longrightarrow> expand_range fuel current end_num refs = Some (Inr refs)"
  by (subst expand_range.simps) simp

lemma expand_step:
  "fle current end_num \<Longrightarrow> py_int current = Inr i \<Longrightarrow>
   expand_range (Suc n) current end_num refs =
     expand_range n (fadd current (round_to_double (1 / 100))) end_num
       (if current = Finite (of_int i) then insert (py_str_int i @ ''.01'') refs else refs)"
  by (subst expand_range.simps) simp

lemma token_start: "is_section_token ''123.99''"
  by (simp add: is_section_token_def is_digit_def)

lemma token_end: "is_section_token ''124.0''"
  by (simp add: is_section_token_def is_digit_def)

lemma value_start: "decimal_value ''123.99'' = 12399 / 100"
  by (simp add: decimal_value_def int_of_digits_def digit_val_def is_digit_def)

lemma value_end: "decimal_value ''124.0'' = 124"
  by (simp add: decimal_value_def int_of_digits_def digit_val_def is_digit_def)

lemma float_start: "float_of_string ''123.99'' = Inr (Finite (8725020590588559 / 70368744177664))"
  by (simp add: float_of_string_def token_start value_start round_start)

lemma float_end: "float_of_string ''124.0'' = Inr (Finite 124)"
  by (simp add: float_of_string_def token_end value_end round_end)

lemma gap_small:
  "fle (fsub (Finite 124) (Finite (8725020590588559 / 70368744177664))) (Finite 20)"
proof -
  have "fsub (Finite 124) (Finite (8725020590588559 / 70368744177664))
        = round_to_double (703687441777 / 70368744177664)"
    by (simp add: fsub_def)
  then show ?thesis by (simp add: round_gap)
qed

lemma str_124: "py_str_int 124 = ''124''"
  by code_simp

lemma expand_example:
  "expand_range (Suc (Suc n)) (Finite (8725020590588559 / 70368744177664)) (Finite 124) refs
     = Some (Inr (insert ''124.01'' refs))"
proof -
  have i1: "py_int (Finite (8725020590588559 / 70368744177664)) = Inr 123" by simp
  have a1: "fadd (Finite (8725020590588559 / 70368744177664)) (round_to_double (1 / 100)) = Finite 124"
  proof -
    have "8725020590588559 / 70368744177664 + 5764607523034235 / 576460752303423488
          = (71481133285624509563 / 576460752303423488 :: rat)" by simp
    then show ?thesis by (simp add: round_step round_first)
  qed
  have s1: "expand_range (Suc (Suc n)) (Finite (8725020590588559 / 70368744177664)) (Finite 124) refs
        = expand_range (Suc n) (Finite 124) (Finite 124) refs"
    by (subst expand_step[OF _ i1]) (simp_all add: a1)
  have i2: "py_int (Finite 124) = Inr 124" by simp
  have a2: "fadd (Finite 124) (round_to_double (1 / 100)) = Finite (8726427965472113 / 70368744177664)"
  proof -
    have "124 + 5764607523034235 / 576460752303423488
          = (71486897893147546747 / 576460752303423488 :: rat)" by simp
    then show ?thesis by (simp add: round_step round_second)
  qed
  have s2: "expand_range (Suc n) (Finite 124) (Finite 124) refs
        = expand_range n (Finite (8726427965472113 / 70368744177664)) (Finite 124) (insert ''124.01'' refs)"
    by (subst expand_step[OF _ i2]) (simp_all add: a2 str_124)
  have s3: "expand_range n (Finite (8726427965472113 / 70368744177664)) (Finite 124) (insert ''124.01'' refs)
        = Some (Inr (insert ''124.01'' refs))"
    by (rule expand_done) simp
  from s1 s2 s3 show ?thesis by simp
qed

lemma process_match_example:
  "process_match (Suc (Suc n)) refs (Groups ''123.99'' ''124.0'')
     = Some (Inr (insert ''124.01'' (insert ''124.0'' (insert ''123.99'' refs))))"
  by (simp add: process_match_def float_start float_end gap_small expand_example Let_def)

lemma whole_iff:
  "py_int (Finite q) = Inr i \<Longrightarrow> (Finite (of_int N) = Finite q) = (Finite q = Finite (of_int i) \<and> N = i)"
  by (auto split: if_splits)

lemma expand_exact:
  "expand_range fuel current end_num refs = Some (Inr S) \<Longrightarrow>
   S = refs \<union> {r. \<exists>i. r = py_str_int i @ ''.01'' \<and> Finite (of_int i) \<in> set (loop_values fuel current end_num)}"
proof (induction fuel arbitrary: current refs)
  case 0
  then show ?case by (subst (asm) expand_range.simps) (auto split: if_splits)
next
  case (Suc n)
  show ?case
  proof (cases "fle current end_num")
    case False
    with Suc.prems show ?thesis by (simp add: expand_done)
  next
    case True
    show ?thesis
    proof (cases "py_int current")
      case (Inl e)
      with Suc.prems True show ?thesis
        by (subst (asm) expand_range.simps) (cases current; auto split: error.splits)
    next
      case (Inr i)
      then obtain q where q: "current = Finite q" by (cases current) auto
      let ?next = "fadd current (round_to_double (1 / 100))"
      let ?refs = "if current = Finite (of_int i) then insert (py_str_int i @ ''.01'') refs else refs"
      from Suc.prems have "expand_range n ?next end_num ?refs = Some (Inr S)"
        by (simp add: expand_step[OF True Inr])
      from Suc.IH[OF this] have S: "S = ?refs \<union>
          {r. \<exists>i. r = py_str_int i @ ''.01'' \<and> Finite (of_int i) \<in> set (loop_values n ?next end_num)}" .
      have lv: "loop_values (Suc n) current end_num = current # loop_values n ?next end_num"
        using True by simp
      have w: "\<And>N. (Finite (of_int N) = current) = (current = Finite (of_int i) \<and> N = i)"
        using whole_iff[OF Inr[unfolded q]] unfolding q by blast
      show ?thesis unfolding lv S by (auto simp: w)
    qed
  qed
qed

lemma is_digit_not_space: "is_digit c \<Longrightarrow> \<not> py_isspace c"
  by (auto simp: is_digit_def py_isspace_def Let_def)

lemma dropWhile_self: "xs \<noteq> [] \<Longrightarrow> \<not> P (hd xs) \<Longrightarrow> dropWhile P xs = xs"
  by (cases xs) auto

lemma py_strip_id:
  assumes "s \<noteq> []" "\<not> py_isspace (hd s)" "\<not> py_isspace (last s)"
  shows "py_strip s = s"
proof -
  have 1: "dropWhile py_isspace s = s" using assms(1,2) by (rule dropWhile_self)
  have 2: "dropWhile py_isspace (rev s) = rev s"
    using assms(1,3) by (intro dropWhile_self) (simp_all add: hd_rev)
  show ?thesis by (simp add: py_strip_def 1 2)
qed

lemma token_strip:
  assumes "is_section_token s"
  shows "py_strip s = s"
proof -
  let ?a = "takeWhile is_digit s"
  let ?r = "dropWhile is_digit s"
  from assms obtain b where a: "?a \<noteq> []" and r: "?r = CHR ''.'' # b" and b: "b \<noteq> []"
    and d: "list_all is_digit b"
    by (auto simp: is_section_token_def Let_def split: list.splits)
  from a have s: "s \<noteq> []" by auto
  from a have h: "is_digit (hd s)" by (cases s) (auto split: if_splits)
  have "s = ?a @ ?r" by simp
  with r have "s = ?a @ CHR ''.'' # b" by simp
  then have "last s = last b" using b by (metis last_ConsR last_appendR list.distinct(1))
  moreover have "is_digit (last b)" using b d by (simp add: list_all_iff)
  ultimately have l: "is_digit (last s)" by simp
  show ?thesis using s h l by (intro py_strip_id) (simp_all add: is_digit_not_space)
qed

lemma digit_char_digit: "d \<le> 9 \<Longrightarrow> is_digit (digit_char d)"
  by (simp add: is_digit_def digit_char_def)

lemma str_digits_head: "py_str_digits n \<noteq> [] \<and> is_digit (hd (py_str_digits n))"
proof (induction n rule: py_str_digits.induct)
  case (1 n)
  show ?case
  proof (cases "n < 10")
    case True
    then have "nat n \<le> 9" by simp
    then show ?thesis using True by (subst py_str_digits.simps, subst py_str_digits.simps) (simp add: digit_char_digit)
  next
    case False
    with 1 have "py_str_digits (n div 10) \<noteq> [] \<and> is_digit (hd (py_str_digits (n div 10)))" by simp
    then show ?thesis using False by (subst py_str_digits.simps, subst py_str_digits.simps) simp
  qed
qed

lemma generated_strip: "py_strip (py_str_int i @ ''.01'') = py_str_int i @ ''.01''"
proof -
  have m: "\<not> py_isspace CHR ''-''" by (simp add: py_isspace_def)
  have o: "\<not> py_isspace CHR ''1''" by (simp add: py_isspace_def)
  have "\<not> py_isspace (hd (py_str_int i @ ''.01''))"
    using str_digits_head[of i] str_digits_head[of "- i"] m
    by (auto simp: py_str_int_def is_digit_not_space)
  then show ?thesis using o by (intro py_strip_id) simp_all
qed

lemma float_token: "float_of_string s = Inr x \<Longrightarrow> is_section_token s"
  by (simp add: float_of_string_def split: if_splits)

lemma token_nonempty: "is_section_token s \<Longrightarrow> s \<noteq> []"
  by (auto simp: is_section_token_def Let_def)

lemma process_range:
  assumes "float_of_string a = Inr start_num" and "float_of_string b = Inr end_num"
  shows "process_match fuel refs (Groups a b) =
     (if fle (fsub end_num start_num) (Finite 20)
      then expand_range fuel start_num end_num (insert b (insert a refs))
      else Some (Inr (insert b (insert a refs))))"
  using assms token_nonempty[OF float_token[OF assms(2)]]
  by (simp add: process_match_def Let_def)

lemma extract_single:
  "extract_cross_references fuel [m] =
    (case process_match fuel {} m of
       None \<Rightarrow> None
     | Some (Inl e) \<Rightarrow> Some (Inl e)
     | Some (Inr refs) \<Rightarrow> Some (Inr (py_strip ` {ref \<in> refs. valid_section_format (py_strip ref)})))"
  by (simp add: extract_cross_references_def split: option.splits sum.splits)

lemma strip_filter_id:
  assumes "\<And>r. r \<in> S \<Longrightarrow> py_strip r = r"
  shows "py_strip ` {ref \<in> S. valid_section_format (py_strip ref)} = {r \<in> S. valid_section_format r}"
proof -
  have 1: "{ref \<in> S. valid_section_format (py_strip ref)} = {r \<in> S. valid_section_format r}"
    using assms by auto
  have "py_strip ` {r \<in> S. valid_section_format r} = id ` {r \<in> S. valid_section_format r}"
    by (rule image_cong) (use assms in auto)
  with 1 show ?thesis by simp
qed

text \<open>
  Claim C4, as the code has it. For a matched range \<open>sections A to B\<close>, the gap is the
  floating-point difference \<^verbatim>\<open>float(B) - float(A)\<close>. When the test \<^verbatim>\<open>gap <= 20\<close> fails,
  exactly the endpoints (those of valid section format) are recorded. Whenever the
  extraction returns, the recorded ids are the endpoints of valid format together with,
  only when the test holds, the ids \<open>N.01\<close> of valid format for exactly those whole numbers
  \<open>N\<close> that the loop variable equals in one of the iterations of the expansion loop. The
  chapter prefixes of the endpoints are not compared.
\<close>

theorem range_expansion_by_gap_only:
  assumes "float_of_string a = Inr start_num" and "float_of_string b = Inr end_num"
  shows "(\<not> fle (fsub end_num start_num) (Finite 20) \<longrightarrow>
            extract_cross_references fuel [Groups a b]
              = Some (Inr {r \<in> {a, b}. valid_section_format r}))
       \<and> (extract_cross_references fuel [Groups a b] = Some (Inr V) \<longrightarrow>
            V = {r \<in> {a, b}. valid_section_format r}
                \<union> {r. fle (fsub end_num start_num) (Finite 20) \<and> valid_section_format r
                       \<and> (\<exists>i. r = py_str_int i @ ''.01''
                              \<and> Finite (of_int i) \<in> set (loop_values fuel start_num end_num))})"
proof (intro conjI impI)
  have sa: "py_strip a = a" by (rule token_strip[OF float_token[OF assms(1)]])
  have sb: "py_strip b = b" by (rule token_strip[OF float_token[OF assms(2)]])
  let ?G = "{r. \<exists>i. r = py_str_int i @ ''.01''
                  \<and> Finite (of_int i) \<in> set (loop_values fuel start_num end_num)}"
  have ends: "py_strip ` {ref \<in> {b, a}. valid_section_format (py_strip ref)}
                = {r \<in> {a, b}. valid_section_format r}"
  proof -
    have "py_strip ` {ref \<in> {b, a}. valid_section_format (py_strip ref)}
            = {r \<in> {b, a}. valid_section_format r}"
      by (rule strip_filter_id) (use sa sb in auto)
    then show ?thesis by (simp add: insert_commute)
  qed
  {
    assume "\<not> fle (fsub end_num start_num) (Finite 20)"
    then have "process_match fuel {} (Groups a b) = Some (Inr {b, a})"
      by (simp add: process_range[OF assms])
    then show "extract_cross_references fuel [Groups a b] = Some (Inr {r \<in> {a, b}. valid_section_format r})"
      by (simp only: extract_single option.case sum.case ends)
  }
  assume ex: "extract_cross_references fuel [Groups a b] = Some (Inr V)"
  then obtain S where pm: "process_match fuel {} (Groups a b) = Some (Inr S)"
    and V: "V = py_strip ` {ref \<in> S. valid_section_format (py_strip ref)}"
    by (auto simp: extract_single split: option.splits sum.splits)
  have S: "S = {b, a} \<union> {r. fle (fsub end_num start_num) (Finite 20) \<and> r \<in> ?G}"
  proof (cases "fle (fsub end_num start_num) (Finite 20)")
    case True
    with pm have "expand_range fuel start_num end_num {b, a} = Some (Inr S)"
      by (simp add: process_range[OF assms])
    from expand_exact[OF this] True show ?thesis by simp
  next
    case False
    with pm have "S = {b, a}" by (simp add: process_range[OF assms])
    with False show ?thesis by simp
  qed
  have strip: "\<And>r. r \<in> S \<Longrightarrow> py_strip r = r"
    unfolding S using sa sb generated_strip by auto
  have "V = {r \<in> S. valid_section_format r}"
    unfolding V by (rule strip_filter_id) (rule strip)
  then show "V = {r \<in> {a, b}. valid_section_format r}
                \<union> {r. fle (fsub end_num start_num) (Finite 20) \<and> valid_section_format r
                       \<and> (\<exists>i. r = py_str_int i @ ''.01''
                              \<and> Finite (of_int i) \<in> set (loop_values fuel start_num end_num))}"
    unfolding S by auto
qed

lemma float_100: "float_of_string ''100.0'' = Inr (Finite 100)"
proof -
  have t: "is_section_token ''100.0''" by (simp add: is_section_token_def is_digit_def)
  have v: "decimal_value ''100.0'' = 100"
    by (simp add: decimal_value_def int_of_digits_def digit_val_def is_digit_def)
  show ?thesis by (simp add: float_of_string_def t v round_100)
qed

lemma float_121: "float_of_string ''121.0'' = Inr (Finite 121)"
proof -
  have t: "is_section_token ''121.0''" by (simp add: is_section_token_def is_digit_def)
  have v: "decimal_value ''121.0'' = 121"
    by (simp add: decimal_value_def int_of_digits_def digit_val_def is_digit_def)
  show ?thesis by (simp add: float_of_string_def t v round_121)
qed

lemma gap_large: "\<not> fle (fsub (Finite 121) (Finite 100)) (Finite 20)"
  by (simp add: fsub_def round_21)

lemma step_example:
  "fadd (Finite (8725020590588559 / 70368744177664)) (round_to_double (1 / 100)) = Finite 124"
proof -
  have "8725020590588559 / 70368744177664 + 5764607523034235 / 576460752303423488
        = (71481133285624509563 / 576460752303423488 :: rat)" by simp
  then show ?thesis by (simp add: round_step round_first)
qed

lemma loop_values_example:
  "loop_values 2 (Finite (8725020590588559 / 70368744177664)) (Finite 124)
     = [Finite (8725020590588559 / 70368744177664), Finite 124]"
proof -
  have two: "(2::nat) = Suc (Suc 0)" by simp
  have 1: "loop_values (Suc (Suc 0)) (Finite (8725020590588559 / 70368744177664)) (Finite 124)
      = Finite (8725020590588559 / 70368744177664) # loop_values (Suc 0) (Finite 124) (Finite 124)"
    by (simp add: step_example)
  have 2: "loop_values (Suc 0) (Finite 124) (Finite 124) = [Finite 124]"
    by simp
  show ?thesis unfolding two 1 2 ..
qed

lemma valid_examples:
  "valid_section_format ''123.99''" "valid_section_format ''124.0''" "valid_section_format ''124.01''"
  by (simp_all add: valid_section_format_def is_digit_def)

lemma strip_examples:
  "py_strip ''123.99'' = ''123.99''" "py_strip ''124.0'' = ''124.0''" "py_strip ''124.01'' = ''124.01''"
  by (simp_all add: py_strip_def py_isspace_def)

lemma extract_example:
  "extract_cross_references 2 [Groups ''123.99'' ''124.0''] = Some (Inr {''123.99'', ''124.0'', ''124.01''})"
proof -
  have two: "(2::nat) = Suc (Suc 0)" by simp
  have pm: "process_match 2 {} (Groups ''123.99'' ''124.0'') = Some (Inr {''123.99'', ''124.0'', ''124.01''})"
    unfolding two by (simp add: process_match_example insert_commute)
  have "py_strip ` {ref \<in> {''123.99'', ''124.0'', ''124.01''}. valid_section_format (py_strip ref)}
        = {r \<in> {''123.99'', ''124.0'', ''124.01''}. valid_section_format r}"
    by (rule strip_filter_id) (use strip_examples in auto)
  also have "\<dots> = {''123.99'', ''124.0'', ''124.01''}"
    using valid_examples by auto
  finally have f: "py_strip ` {ref \<in> {''123.99'', ''124.0'', ''124.01''}. valid_section_format (py_strip ref)}
        = {''123.99'', ''124.0'', ''124.01''}" .
  show ?thesis by (simp only: extract_single pm option.case sum.case f)
qed

text \<open>
  The theorem at the range from 100.0 to 121.0, whose gap is 21, and at the range from
  123.99 to 124.0, where the loop variable takes the values 123.99 and 124.0 and the one
  id beside the endpoints is 124.01.
\<close>

theorem range_expansion_by_gap_only_witness:
  "float_of_string ''100.0'' = Inr (Finite 100) \<and> float_of_string ''121.0'' = Inr (Finite 121)
   \<and> \<not> fle (fsub (Finite 121) (Finite 100)) (Finite 20)
   \<and> extract_cross_references 0 [Groups ''100.0'' ''121.0''] = Some (Inr {''100.0'', ''121.0''})
   \<and> float_of_string ''123.99'' = Inr (Finite (8725020590588559 / 70368744177664))
   \<and> float_of_string ''124.0'' = Inr (Finite 124)
   \<and> fle (fsub (Finite 124) (Finite (8725020590588559 / 70368744177664))) (Finite 20)
   \<and> extract_cross_references 2 [Groups ''123.99'' ''124.0''] = Some (Inr {''123.99'', ''124.0'', ''124.01''})
   \<and> loop_values 2 (Finite (8725020590588559 / 70368744177664)) (Finite 124)
        = [Finite (8725020590588559 / 70368744177664), Finite 124]
   \<and> {''123.99'', ''124.0'', ''124.01''}
        = {r \<in> {''123.99'', ''124.0''}. valid_section_format r}
          \<union> {r. fle (fsub (Finite 124) (Finite (8725020590588559 / 70368744177664))) (Finite 20)
                 \<and> valid_section_format r
                 \<and> (\<exists>i. r = py_str_int i @ ''.01''
                        \<and> Finite (of_int i)
                            \<in> set (loop_values 2 (Finite (8725020590588559 / 70368744177664)) (Finite 124)))}"
proof -
  have v: "valid_section_format ''100.0''" "valid_section_format ''121.0''"
    by (simp_all add: valid_section_format_def is_digit_def)
  then have s: "{r \<in> {''100.0'', ''121.0''}. valid_section_format r} = {''100.0'', ''121.0''}"
    by auto
  note large = range_expansion_by_gap_only[OF float_100 float_121, of 0
      "{r \<in> {''100.0'', ''121.0''}. valid_section_format r}"]
  have "extract_cross_references 0 [Groups ''100.0'' ''121.0'']
      = Some (Inr {r \<in> {''100.0'', ''121.0''}. valid_section_format r})"
    by (rule mp[OF conjunct1[OF large] gap_large])
  then have 1: "extract_cross_references 0 [Groups ''100.0'' ''121.0''] = Some (Inr {''100.0'', ''121.0''})"
    by (simp only: s)
  note small = range_expansion_by_gap_only[OF float_start float_end, of 2 "{''123.99'', ''124.0'', ''124.01''}"]
  have 2: "{''123.99'', ''124.0'', ''124.01''}
        = {r \<in> {''123.99'', ''124.0''}. valid_section_format r}
          \<union> {r. fle (fsub (Finite 124) (Finite (8725020590588559 / 70368744177664))) (Finite 20)
                 \<and> valid_section_format r
                 \<and> (\<exists>i. r = py_str_int i @ ''.01''
                        \<and> Finite (of_int i)
                            \<in> set (loop_values 2 (Finite (8725020590588559 / 70368744177664)) (Finite 124)))}"
    by (rule mp[OF conjunct2[OF small] extract_example])
  show ?thesis
    by (intro conjI float_100 float_121 gap_large 1 float_start float_end gap_small extract_example
        loop_values_example 2)
qed

text \<open>
  The text \<open>sections 123.99 to 124.0\<close> yields the range match and, from the pattern for
  standalone numbers, its two endpoints. The gap is small, the loop variable goes from
  123.99 to exactly 124.0, and the id 124.01 is recorded although the endpoints lie in
  the chapters 123 and 124.
\<close>

theorem range_expansion_counterexample:
  "extract_cross_references 2 [Groups ''123.99'' ''124.0'', Single ''123.99'', Single ''124.0'']
     = Some (Inr {''123.99'', ''124.0'', ''124.01''})
   \<and> takeWhile is_digit ''123.99'' = ''123'' \<and> takeWhile is_digit ''124.0'' = ''124''"
proof -
  have two: "(2::nat) = Suc (Suc 0)" by simp
  have pm: "process_matches 2 {} [Groups ''123.99'' ''124.0'', Single ''123.99'', Single ''124.0'']
        = Some (Inr {''123.99'', ''124.0'', ''124.01''})"
    unfolding two by (simp add: process_match_example) (simp add: process_match_def insert_commute)
  have "py_strip ` {ref \<in> {''123.99'', ''124.0'', ''124.01''}. valid_section_format (py_strip ref)}
        = {r \<in> {''123.99'', ''124.0'', ''124.01''}. valid_section_format r}"
    by (rule strip_filter_id) (use strip_examples in auto)
  also have "\<dots> = {''123.99'', ''124.0'', ''124.01''}"
    using valid_examples by auto
  finally have f: "py_strip ` {ref \<in> {''123.99'', ''124.0'', ''124.01''}. valid_section_format (py_strip ref)}
        = {''123.99'', ''124.0'', ''124.01''}" .
  have "extract_cross_references 2 [Groups ''123.99'' ''124.0'', Single ''123.99'', Single ''124.0'']
     = Some (Inr {''123.99'', ''124.0'', ''124.01''})"
    unfolding extract_cross_references_def pm by (simp only: option.case sum.case f)
  moreover have "takeWhile is_digit ''123.99'' = ''123''" "takeWhile is_digit ''124.0'' = ''124''"
    by (simp_all add: is_digit_def)
  ultimately show ?thesis by simp
qed

end
